theory Spec2Isabelle
  imports Complex_Main
begin

section \<open>The ink canvas of src/inkCanvas.ts\<close>

text \<open>
  The class \<open>InkCanvas\<close> keeps two arrays of path meshes (the undo list \<open>_paths\<close> and the
  redo list \<open>_redoPaths\<close>), the path being drawn (\<open>_currentPath\<close>) and the brush settings.
  Its methods mutate these fields, the meshes they point to and the scene that hosts them.
  The model passes that state explicitly. Meshes are objects with identity that several
  fields may point to, so they live in a store (\<open>objs\<close>, indexed by reference) and the
  fields hold references. JavaScript numbers are modelled as reals.
\<close>

subsection \<open>Values of the host engine\<close>

type_synonym ref = nat
type_synonym vec3 = "real \<times> real \<times> real"
type_synonym color3 = "real \<times> real \<times> real"
type_synonym matrix = "real list"

text \<open>
  \<open>const enum Brush { pen }\<close> is a numeric enum: \<open>Brush.pen\<close> is the number 0, the field
  \<open>_currentMode\<close> holds a number, and the last branch of \<open>_createPathMaterial\<close> serves every
  value other than \<open>pen\<close>.
\<close>

type_synonym brush = nat

definition pen :: brush where
  "pen = 0"

datatype materialKind =
    StandardMaterial color3 color3 color3
  | DebugMaterial
  | SimpleMaterial color3
  | RainbowMaterial

record material =
  materialName :: string
  kind :: materialKind
  backFaceCulling :: bool
  isFrozen :: bool

text \<open>
  \<open>Partial<PathBufferDataOptions>\<close>: every option may be absent.
\<close>

record pathBufferDataOptions =
  radius :: "real option"
  debounce :: "real option"
  roundness :: "int option"

record pathBufferData =
  options :: pathBufferDataOptions
  points :: "(real \<times> real) list"

text \<open>
  A mesh of the scene. \<open>PathMesh\<close> extends the engine's \<open>Mesh\<close>: a path mesh is a mesh whose
  \<open>pathData\<close> is present, the drawing plane is a mesh without it.
\<close>

record mesh =
  name :: string
  material :: "material option"
  parent :: "ref option"
  position :: vec3
  rotation :: vec3
  renderingGroupId :: nat
  isPickable :: bool
  alwaysSelectAsActiveMesh :: bool
  isWorldMatrixFrozen :: bool
  isDisposed :: bool
  pathData :: "pathBufferData option"

text \<open>
  The scene: the store of mesh objects, the list \<open>scene.meshes\<close> of the meshes attached to
  it, and the \<open>dispose()\<close> calls issued so far, in order.
\<close>

record scene =
  objs :: "mesh list"
  meshes :: "ref list"
  disposeCalls :: "ref list"

text \<open>
  The matrix functions of the engine that the canvas calls (\<open>getWorldMatrix\<close>,
  \<open>invertToRef\<close>, \<open>Vector3.TransformCoordinates\<close>) are parameters of the model.
\<close>

record math =
  getWorldMatrix :: "mesh \<Rightarrow> matrix"
  invert :: "matrix \<Rightarrow> matrix"
  transformCoordinates :: "vec3 \<Rightarrow> matrix \<Rightarrow> vec3"

text \<open>
  The engine's defaults for a new \<open>Mesh\<close>: pickable, no material, no parent, rendering
  group 0.
\<close>

definition newMesh :: "string \<Rightarrow> mesh" where
  "newMesh n =
     \<lparr>name = n, material = None, parent = None, position = (0, 0, 0), rotation = (0, 0, 0),
      renderingGroupId = 0, isPickable = True, alwaysSelectAsActiveMesh = False,
      isWorldMatrixFrozen = False, isDisposed = False, pathData = None\<rparr>"

definition addMesh :: "ref \<Rightarrow> scene \<Rightarrow> scene" where
  "addMesh r sc = sc\<lparr>meshes := meshes sc @ [r]\<rparr>"

definition removeMesh :: "ref \<Rightarrow> scene \<Rightarrow> scene" where
  "removeMesh r sc = sc\<lparr>meshes := remove1 r (meshes sc)\<rparr>"

text \<open>
  Constructing a mesh allocates the object and registers it with the scene.
\<close>

definition allocMesh :: "mesh \<Rightarrow> scene \<Rightarrow> ref \<times> scene" where
  "allocMesh m sc = (length (objs sc), addMesh (length (objs sc)) (sc\<lparr>objs := objs sc @ [m]\<rparr>))"

text \<open>
  A picking result with \<open>hit\<close> set carries the picked mesh and the picked point; one
  without carries neither. \<open>scene.pick\<close> casts a ray through the pointer position; the
  meshes that ray meets, nearest first, with the points where it meets them, are the
  host's input (\<open>ray\<close>). The engine reports the nearest of them that is attached to the
  scene and has \<open>isPickable\<close> set.
\<close>

datatype pickingInfo = Miss | Hit ref vec3

type_synonym ray = "(ref \<times> vec3) list"

fun pick :: "scene \<Rightarrow> ray \<Rightarrow> pickingInfo option" where
  "pick sc [] = Some Miss"
| "pick sc ((r, p) # rest) =
     (if r \<in> set (meshes sc) \<and> r < length (objs sc) \<and> isPickable (objs sc ! r)
      then Some (Hit r p) else pick sc rest)"

subsection \<open>Path meshes and materials\<close>

datatype error = InvalidBrushParameter

datatype jsval = JsUndefined | JsBool bool

datatype completion = Return jsval | Throw error

text \<open>
  Modelled from the spec: the constructor of \<open>PathMesh\<close> (path/pathMesh.ts and
  path/pathBufferData.ts are not under src/). Section 4.1: creation fails with
  \<open>InvalidBrushParameter\<close> on a radius that is not positive, and section 7 adds a
  negative roundness or debounce; otherwise the geometry is seeded with the one point.
  The new object is a mesh of the engine with the engine's defaults, registered with the
  scene (section 4.3: on a hit the stroke is attached to the scene).
\<close>

definition invalidOptions :: "pathBufferDataOptions \<Rightarrow> bool" where
  "invalidOptions opts =
     ((case radius opts of None \<Rightarrow> False | Some r \<Rightarrow> r \<le> 0) \<or>
      (case roundness opts of None \<Rightarrow> False | Some n \<Rightarrow> n < 0) \<or>
      (case debounce opts of None \<Rightarrow> False | Some d \<Rightarrow> d < 0))"

definition newPathMesh ::
  "string \<Rightarrow> scene \<Rightarrow> real \<Rightarrow> real \<Rightarrow> pathBufferDataOptions \<Rightarrow> error + (ref \<times> scene)" where
  "newPathMesh n sc x y opts =
     (if invalidOptions opts then Inl InvalidBrushParameter
      else Inr (allocMesh ((newMesh n)\<lparr>pathData := Some \<lparr>options = opts, points = [(x, y)]\<rparr>\<rparr>) sc))"

text \<open>
  Modelled from the spec: \<open>PathMesh.addPointToPath\<close> (path/pathMesh.ts is not under
  src/). Section 4.1, \<open>appendPoint\<close>: a point closer to the last accepted point than the
  debounce distance is rejected without any change, any other point is appended; a
  debounce distance that was not given is 0 (section 9: thinning is off outside the debug
  configuration).
\<close>

definition debounceDistance :: "pathBufferDataOptions \<Rightarrow> real" where
  "debounceDistance opts = (case debounce opts of None \<Rightarrow> 0 | Some d \<Rightarrow> d)"

definition appendPoint :: "real \<Rightarrow> real \<Rightarrow> pathBufferData \<Rightarrow> pathBufferData" where
  "appendPoint x y b =
     (case points b of
        [] \<Rightarrow> b\<lparr>points := [(x, y)]\<rparr>
      | _ # _ \<Rightarrow>
          (let (lx, ly) = last (points b) in
             if sqrt ((x - lx)\<^sup>2 + (y - ly)\<^sup>2) < debounceDistance (options b) then b
             else b\<lparr>points := points b @ [(x, y)]\<rparr>))"

definition addPointToPath :: "real \<Rightarrow> real \<Rightarrow> mesh \<Rightarrow> mesh" where
  "addPointToPath x y m = m\<lparr>pathData := map_option (appendPoint x y) (pathData m)\<rparr>"

text \<open>
  Modelled from the spec: \<open>PathMesh.dispose\<close> (path/pathMesh.ts is not under src/).
  Section 4.2: it releases the geometry and material of the stroke. The model marks the
  object and records the call.
\<close>

definition dispose :: "ref \<Rightarrow> scene \<Rightarrow> scene" where
  "dispose r sc =
     sc\<lparr>objs := (objs sc)[r := (objs sc ! r)\<lparr>isDisposed := True\<rparr>],
        disposeCalls := disposeCalls sc @ [r]\<rparr>"

text \<open>
  Modelled from the spec: the material factories (materials/debugMaterial.ts,
  materials/simpleMaterial.ts and materials/rainbowMaterial.ts are not under src/).
  Section 6: the material policy returns an opaque handle for the mode, the colour and
  the debug flag.
\<close>

definition createDebugMaterial :: "string \<Rightarrow> material" where
  "createDebugMaterial n =
     \<lparr>materialName = n, kind = DebugMaterial, backFaceCulling = True, isFrozen = False\<rparr>"

definition createSimpleMaterial :: "string \<Rightarrow> color3 \<Rightarrow> material" where
  "createSimpleMaterial n c =
     \<lparr>materialName = n, kind = SimpleMaterial c, backFaceCulling = True, isFrozen = False\<rparr>"

definition createRainbowMaterial :: "string \<Rightarrow> material" where
  "createRainbowMaterial n =
     \<lparr>materialName = n, kind = RainbowMaterial, backFaceCulling = True, isFrozen = False\<rparr>"

subsection \<open>The canvas\<close>

record inkCanvas =
  debug :: bool
  scene :: scene
  paths :: "ref list"
  redoPaths :: "ref list"
  currentPath :: "ref option"
  currentSize :: real
  sizeScaleFactor :: real
  currentColor :: color3
  currentMode :: brush
  invertedWorldMatrix :: matrix

definition white :: color3 where
  "white = (1, 1, 1)"

definition grey :: color3 where
  "grey = (77 / 255, 86 / 255, 92 / 255)"

definition greyMat :: material where
  "greyMat =
     \<lparr>materialName = ''grey'', kind = StandardMaterial grey grey grey,
      backFaceCulling = True, isFrozen = False\<rparr>"

text \<open>
  The constructor: empty lists, no current path, size 5, white pen, and the drawing
  plane, a new mesh of the scene with the grey material, tilted by \<open>\<pi> / 16\<close>.
\<close>

definition InkCanvas :: "scene \<Rightarrow> bool \<Rightarrow> inkCanvas" where
  "InkCanvas sc dbg =
     (let (drawingPlane, sc1) = allocMesh (newMesh ''Drawing Plane 1'') sc;
          sc2 = sc1\<lparr>objs := (objs sc1)[drawingPlane :=
                  (objs sc1 ! drawingPlane)\<lparr>material := Some greyMat, position := (0, 0, 0),
                                             rotation := (pi / 16, 0, 0)\<rparr>]\<rparr>
      in \<lparr>debug = dbg, scene = sc2, paths = [], redoPaths = [], currentPath = None,
          currentSize = 5, sizeScaleFactor = 0.01, currentColor = white, currentMode = pen,
          invertedWorldMatrix = replicate 16 0\<rparr>)"

definition createPathMaterial :: "inkCanvas \<Rightarrow> material" where
  "createPathMaterial s =
     (if debug s then (createDebugMaterial ''debugMaterial'')\<lparr>backFaceCulling := False\<rparr>
      else if currentMode s = pen
      then (createSimpleMaterial ''pathMaterial'' (currentColor s))\<lparr>backFaceCulling := False\<rparr>
      else (createRainbowMaterial ''pathMaterial'')\<lparr>backFaceCulling := False\<rparr>)"

text \<open>
  \<open>_createPath\<close>: the options it builds, then the constructor call.
\<close>

definition pathOptions :: "inkCanvas \<Rightarrow> pathBufferDataOptions" where
  "pathOptions s =
     (let opts = \<lparr>radius = Some (currentSize s * sizeScaleFactor s), debounce = None,
                  roundness = None\<rparr>
      in if debug s then opts\<lparr>debounce := Some 1, roundness := Some 8\<rparr> else opts)"

definition createPath :: "real \<Rightarrow> real \<Rightarrow> inkCanvas \<Rightarrow> error + (ref \<times> scene)" where
  "createPath x y s = newPathMesh ''path'' (scene s) x y (pathOptions s)"

text \<open>
  \<open>startPath\<close>. A bare \<open>return;\<close> yields \<open>undefined\<close>. The redo list is emptied before
  the pick. On a hit the scratch matrix is overwritten, the path is created (which may
  throw), and the new mesh gets its material, its parent, its rendering group and the
  flags of the "Quick Optim" block.
\<close>

definition setupPath :: "material \<Rightarrow> ref \<Rightarrow> mesh \<Rightarrow> mesh" where
  "setupPath mat pickedMesh m =
     m\<lparr>material := Some (mat\<lparr>isFrozen := True\<rparr>), parent := Some pickedMesh,
       renderingGroupId := 2, isPickable := False, alwaysSelectAsActiveMesh := True,
       isWorldMatrixFrozen := True\<rparr>"

definition startPath :: "math \<Rightarrow> ray \<Rightarrow> inkCanvas \<Rightarrow> completion \<times> inkCanvas" where
  "startPath M ry s =
     (if currentPath s \<noteq> None then (Return JsUndefined, s)
      else
        let s1 = s\<lparr>redoPaths := []\<rparr> in
        case pick (scene s1) ry of
          Some (Hit pickedMesh pickedPoint) \<Rightarrow>
            (let s2 = s1\<lparr>invertedWorldMatrix :=
                         invert M (getWorldMatrix M (objs (scene s1) ! pickedMesh))\<rparr>;
                 (lx, ly, lz) = transformCoordinates M pickedPoint (invertedWorldMatrix s2)
             in case createPath lx ly s2 of
                  Inl e \<Rightarrow> (Throw e, s2)
                | Inr (path, sc) \<Rightarrow>
                    (Return (JsBool True),
                     s2\<lparr>scene := sc\<lparr>objs := (objs sc)[path :=
                                      setupPath (createPathMaterial s2) pickedMesh (objs sc ! path)]\<rparr>,
                        currentPath := Some path\<rparr>))
        | _ \<Rightarrow> (Return (JsBool False), s1))"

definition extendPath :: "math \<Rightarrow> ray \<Rightarrow> inkCanvas \<Rightarrow> completion \<times> inkCanvas" where
  "extendPath M ry s =
     (case currentPath s of
        None \<Rightarrow> (Return JsUndefined, s)
      | Some path \<Rightarrow>
          (case pick (scene s) ry of
             Some (Hit pickedMesh pickedPoint) \<Rightarrow>
               (let s1 = s\<lparr>invertedWorldMatrix :=
                            invert M (getWorldMatrix M (objs (scene s) ! pickedMesh))\<rparr>;
                    (lx, ly, lz) = transformCoordinates M pickedPoint (invertedWorldMatrix s1);
                    sc = scene s1
                in (Return (JsBool True),
                    s1\<lparr>scene := sc\<lparr>objs := (objs sc)[path := addPointToPath lx ly (objs sc ! path)]\<rparr>\<rparr>))
           | _ \<Rightarrow> (Return (JsBool False), s)))"

definition endPath :: "inkCanvas \<Rightarrow> inkCanvas" where
  "endPath s =
     (case currentPath s of
        None \<Rightarrow> s
      | Some path \<Rightarrow> s\<lparr>paths := paths s @ [path], currentPath := None\<rparr>)"

text \<open>
  \<open>Array.prototype.pop\<close>: the last element and the shortened array, or \<open>undefined\<close> on
  an empty array.
\<close>

definition pop :: "'a list \<Rightarrow> ('a \<times> 'a list) option" where
  "pop xs = (if xs = [] then None else Some (last xs, butlast xs))"

definition undo :: "inkCanvas \<Rightarrow> inkCanvas" where
  "undo s =
     (if currentPath s = None \<and> length (paths s) > 0 then
        (case pop (paths s) of
           None \<Rightarrow> s
         | Some (path, rest) \<Rightarrow>
             s\<lparr>paths := rest, redoPaths := redoPaths s @ [path],
               scene := removeMesh path (scene s)\<rparr>)
      else s)"

definition redo :: "inkCanvas \<Rightarrow> inkCanvas" where
  "redo s =
     (if currentPath s = None \<and> length (redoPaths s) > 0 then
        (case pop (redoPaths s) of
           None \<Rightarrow> s
         | Some (path, rest) \<Rightarrow>
             s\<lparr>redoPaths := rest, paths := paths s @ [path],
               scene := addMesh path (scene s)\<rparr>)
      else s)"

text \<open>
  The loop of \<open>clear\<close>: \<open>while (path = this._paths.pop()) path.dispose()\<close>. A mesh object
  is truthy, so the loop ends when \<open>pop\<close> yields \<open>undefined\<close>.
\<close>

function clearLoop :: "inkCanvas \<Rightarrow> inkCanvas" where
  "clearLoop s =
     (case pop (paths s) of
        None \<Rightarrow> s
      | Some (path, rest) \<Rightarrow> clearLoop (s\<lparr>paths := rest, scene := dispose path (scene s)\<rparr>))"
  by pat_completeness auto
termination
  by (relation "measure (\<lambda>s. length (paths s))") (auto simp: pop_def split: if_splits)

declare clearLoop.simps [simp del]

definition clear :: "inkCanvas \<Rightarrow> inkCanvas" where
  "clear s = (if currentPath s = None \<and> length (paths s) > 0 then clearLoop s else s)"

definition changeSize :: "real \<Rightarrow> inkCanvas \<Rightarrow> inkCanvas" where
  "changeSize sz s = s\<lparr>currentSize := sz\<rparr>"

definition usePen :: "inkCanvas \<Rightarrow> inkCanvas" where
  "usePen s = s\<lparr>currentMode := pen\<rparr>"

definition changeColor :: "color3 \<Rightarrow> inkCanvas \<Rightarrow> inkCanvas" where
  "changeColor color s = usePen (s\<lparr>currentColor := color\<rparr>)"

subsection \<open>Histories of calls\<close>

text \<open>
  The page (index.ts) builds a fresh scene, which holds no mesh, constructs the canvas
  on it and then calls its methods from the pointer, keyboard and button handlers. An
  exception thrown by a method ends that call; the handlers that follow see the state it
  left.
\<close>

definition createScene :: scene where
  "createScene = \<lparr>objs = [], meshes = [], disposeCalls = []\<rparr>"

datatype event =
    StartPath ray
  | ExtendPath ray
  | EndPath
  | Undo
  | Redo
  | Clear
  | ChangeSize real
  | ChangeColor color3
  | UsePen

fun fire :: "math \<Rightarrow> inkCanvas \<Rightarrow> event \<Rightarrow> inkCanvas" where
  "fire M s (StartPath ry) = snd (startPath M ry s)"
| "fire M s (ExtendPath ry) = snd (extendPath M ry s)"
| "fire M s EndPath = endPath s"
| "fire M s Undo = undo s"
| "fire M s Redo = redo s"
| "fire M s Clear = clear s"
| "fire M s (ChangeSize sz) = changeSize sz s"
| "fire M s (ChangeColor c) = changeColor c s"
| "fire M s UsePen = usePen s"

definition run :: "math \<Rightarrow> event list \<Rightarrow> inkCanvas \<Rightarrow> inkCanvas" where
  "run M evs s = foldl (fire M) s evs"

text \<open>
  The strokes the canvas holds: the undo list, the redo list and the path in progress.
\<close>

definition held :: "inkCanvas \<Rightarrow> ref list" where
  "held s = paths s @ redoPaths s @ (case currentPath s of None \<Rightarrow> [] | Some r \<Rightarrow> [r])"

text \<open>
  A stroke mesh as \<open>startPath\<close> leaves it: a path mesh that is not pickable and whose
  radius is positive.
\<close>

definition isStroke :: "mesh \<Rightarrow> bool" where
  "isStroke m =
     (case pathData m of
        None \<Rightarrow> False
      | Some b \<Rightarrow> \<not> isPickable m \<and> (case radius (options b) of None \<Rightarrow> False | Some r \<Rightarrow> 0 < r))"

text \<open>
  The invariant of the canvas on a scene of its own: object 0 is the drawing plane, every
  other object is a stroke, and the held strokes are distinct objects of the store.
\<close>

definition sceneInv :: "mesh list \<Rightarrow> bool" where
  "sceneInv ms =
     (case ms of
        [] \<Rightarrow> False
      | plane # strokes \<Rightarrow>
          name plane = ''Drawing Plane 1'' \<and> pathData plane = None \<and> list_all isStroke strokes)"

definition canvasInv :: "inkCanvas \<Rightarrow> bool" where
  "canvasInv s =
     (sceneInv (objs (scene s)) \<and>
      list_all (\<lambda>r. 0 < r \<and> r < length (objs (scene s))) (held s) \<and>
      distinct (held s))"

text \<open>
  A pick that reports no hit: \<open>pickInfo?.hit\<close> is falsy.
\<close>

definition misses :: "scene \<Rightarrow> ray \<Rightarrow> bool" where
  "misses sc ry = (case pick sc ry of Some (Hit r p) \<Rightarrow> False | _ \<Rightarrow> True)"

text \<open>
  A matrix model for evaluating examples: every mesh has the identity for its world
  matrix, so local and world coordinates coincide.
\<close>

definition identityMath :: math where
  "identityMath =
     \<lparr>getWorldMatrix = (\<lambda>m. [1, 0, 0, 0, 0, 1, 0, 0, 0, 0, 1, 0, 0, 0, 0, 1]),
      invert = (\<lambda>m. m),
      transformCoordinates = (\<lambda>v m. v)\<rparr>"

text \<open>
  References are handed out in the order of creation (\<open>allocMesh\<close> takes the next free
  index), so a smaller reference is an older mesh. The held strokes in creation order:
  the undo list, then the path in progress, then the redo list from its top down.
\<close>

definition inCreationOrder :: "inkCanvas \<Rightarrow> bool" where
  "inCreationOrder s =
     sorted_wrt (<) (paths s @ (case currentPath s of None \<Rightarrow> [] | Some r \<Rightarrow> [r]) @
       rev (redoPaths s))"

text \<open>
  The drawing plane stays in place: object 0 is attached to the scene and pickable.
\<close>

definition planeInv :: "inkCanvas \<Rightarrow> bool" where
  "planeInv s =
     (0 \<in> set (meshes (scene s)) \<and> 0 < length (objs (scene s)) \<and>
      isPickable (objs (scene s) ! 0))"

text \<open>
  The point that \<open>startPath\<close> and \<open>extendPath\<close> hand to the path: the picked point
  in the coordinates of the picked mesh, without its third coordinate.
\<close>

definition localPoint :: "math \<Rightarrow> inkCanvas \<Rightarrow> ref \<Rightarrow> vec3 \<Rightarrow> real \<times> real" where
  "localPoint M s pickedMesh pickedPoint =
     (let (lx, ly, lz) = transformCoordinates M pickedPoint
                           (invert M (getWorldMatrix M (objs (scene s) ! pickedMesh)))
      in (lx, ly))"

subsection \<open>Example states\<close>

text \<open>
  One stroke drawn on the plane, committed and undone: the canvas is idle, the undo list
  is empty and the redo list holds the stroke (object 1).
\<close>

definition undoneStroke :: inkCanvas where
  "undoneStroke =
     run identityMath [StartPath [(0, (0, 0, 0))], EndPath, Undo] (InkCanvas createScene False)"

text \<open>
  Two strokes drawn and committed one after the other: objects 1 and 2, in that order.
\<close>

definition twoStrokes :: inkCanvas where
  "twoStrokes =
     run identityMath [StartPath [(0, (0, 0, 0))], EndPath, StartPath [(0, (1, 1, 0))], EndPath]
       (InkCanvas createScene False)"

text \<open>
  A third stroke drawn after these two and undone: two strokes on the undo list, one on
  the redo list.
\<close>

definition oneUndone :: inkCanvas where
  "oneUndone = undo (run identityMath [StartPath [(0, (2, 0, 0))], EndPath] twoStrokes)"

text \<open>
  A stroke in progress on a new canvas.
\<close>

definition drawing :: inkCanvas where
  "drawing = run identityMath [StartPath [(0, (0, 0, 0))]] (InkCanvas createScene False)"

text \<open>
  One stroke drawn and committed on a new canvas.
\<close>

definition oneStroke :: inkCanvas where
  "oneStroke = run identityMath [StartPath [(0, (0, 0, 0))], EndPath] (InkCanvas createScene False)"

text \<open>
  The second stroke in progress while the first is on the undo list.
\<close>

definition drawingSecond :: inkCanvas where
  "drawingSecond =
     run identityMath [StartPath [(0, (0, 0, 0))], EndPath, StartPath [(0, (1, 1, 0))]]
       (InkCanvas createScene False)"

text \<open>
  A third stroke in progress while the first is on the undo list and the second on the
  redo list. No run of the canvas reaches this state (\<open>startPath\<close> empties the redo
  list); it serves where a guard is to be seen at work on a redo list that is not empty.
\<close>

definition drawingOverUndone :: inkCanvas where
  "drawingOverUndone =
     (run identityMath
        [StartPath [(0, (0, 0, 0))], EndPath, StartPath [(0, (1, 1, 0))], EndPath,
         StartPath [(0, (2, 0, 0))]]
        (InkCanvas createScene False))\<lparr>paths := [1], redoPaths := [2]\<rparr>"

text \<open>
  The brush size set to 0 while one undone stroke is on the redo list.
\<close>

definition zeroSize :: inkCanvas where
  "zeroSize = changeSize 0 undoneStroke"

text \<open>
  Degenerate geometry: a path mesh whose radius is not positive.
\<close>

definition degenerate :: "mesh \<Rightarrow> bool" where
  "degenerate m =
     (case pathData m of
        None \<Rightarrow> False
      | Some b \<Rightarrow> (case radius (options b) of None \<Rightarrow> False | Some r \<Rightarrow> r \<le> 0))"

section \<open>The invariant\<close>

lemma list_all_update:
  "list_all P xs \<Longrightarrow> (P (xs ! k) \<Longrightarrow> P y) \<Longrightarrow> list_all P (xs[k := y])"
  by (induction xs arbitrary: k) (auto split: nat.splits)

lemma sceneInv_update:
  assumes "sceneInv ms"
    and "name (f (ms ! r)) = name (ms ! r)"
    and "pathData (f (ms ! r)) = None \<longleftrightarrow> pathData (ms ! r) = None"
    and "isStroke (ms ! r) \<Longrightarrow> isStroke (f (ms ! r))"
  shows "sceneInv (ms[r := f (ms ! r)])"
proof (cases ms)
  case Nil
  with assms show ?thesis by (simp add: sceneInv_def)
next
  case (Cons plane strokes)
  show ?thesis
  proof (cases r)
    case 0
    with Cons assms show ?thesis by (simp add: sceneInv_def)
  next
    case (Suc k)
    with Cons assms show ?thesis
      by (simp add: sceneInv_def list_all_update)
  qed
qed

lemma sceneInv_snoc: "sceneInv ms \<Longrightarrow> isStroke m \<Longrightarrow> sceneInv (ms @ [m])"
  by (cases ms) (simp_all add: sceneInv_def)

lemma isStroke_appendPoint: "isStroke m \<Longrightarrow> isStroke (addPointToPath x y m)"
  by (auto simp: isStroke_def addPointToPath_def appendPoint_def Let_def
      split: option.splits list.splits prod.splits)

lemma pathData_addPointToPath: "pathData (addPointToPath x y m) = None \<longleftrightarrow> pathData m = None"
  by (simp add: addPointToPath_def)

lemma name_addPointToPath: "name (addPointToPath x y m) = name m"
  by (simp add: addPointToPath_def)

lemma isStroke_setupPath:
  "\<not> invalidOptions opts \<Longrightarrow> radius opts \<noteq> None \<Longrightarrow>
   isStroke (setupPath mat pm ((newMesh n)\<lparr>pathData := Some \<lparr>options = opts, points = ps\<rparr>\<rparr>))"
  by (auto simp: isStroke_def setupPath_def newMesh_def invalidOptions_def split: option.splits)

lemma canvasInv_init: "canvasInv (InkCanvas createScene dbg)"
  by (simp add: canvasInv_def InkCanvas_def createScene_def allocMesh_def addMesh_def
      newMesh_def sceneInv_def held_def Let_def)

lemma createPath_cases:
  "(\<exists>e. createPath x y s = Inl e) \<or>
   (\<exists>opts. \<not> invalidOptions opts \<and> radius opts \<noteq> None \<and>
      createPath x y s =
        Inr (length (objs (scene s)),
             (scene s)\<lparr>objs := objs (scene s) @
                          [(newMesh ''path'')\<lparr>pathData := Some \<lparr>options = opts, points = [(x, y)]\<rparr>\<rparr>],
                        meshes := meshes (scene s) @ [length (objs (scene s))]\<rparr>))"
proof (cases "invalidOptions (pathOptions s)")
  case True
  then show ?thesis by (simp add: createPath_def newPathMesh_def)
next
  case False
  moreover have "radius (pathOptions s) \<noteq> None"
    by (simp add: pathOptions_def Let_def)
  ultimately have "\<not> invalidOptions (pathOptions s) \<and> radius (pathOptions s) \<noteq> None \<and>
      createPath x y s =
        Inr (length (objs (scene s)),
             (scene s)\<lparr>objs := objs (scene s) @
                          [(newMesh ''path'')\<lparr>pathData := Some \<lparr>options = pathOptions s, points = [(x, y)]\<rparr>\<rparr>],
                        meshes := meshes (scene s) @ [length (objs (scene s))]\<rparr>)"
    by (simp add: createPath_def newPathMesh_def allocMesh_def addMesh_def)
  then show ?thesis by blast
qed

lemma canvasInv_startPath: "canvasInv s \<Longrightarrow> canvasInv (snd (startPath M ry s))"
proof -
  assume inv: "canvasInv s"
  show ?thesis
  proof (cases "currentPath s")
    case (Some r)
    with inv show ?thesis by (simp add: startPath_def)
  next
    case None
    have inv1: "canvasInv (s\<lparr>redoPaths := []\<rparr>)"
      using inv None by (simp add: canvasInv_def held_def)
    show ?thesis
    proof (cases "pick (scene s) ry")
      case NoInfo: None
      with None inv1 show ?thesis by (simp add: startPath_def)
    next
      case (Some pi)
      show ?thesis
      proof (cases pi)
        case Miss
        with None Some inv1 show ?thesis by (simp add: startPath_def)
      next
        case (Hit pm pp)
        obtain lx ly lz where tc: "transformCoordinates M pp
            (invert M (getWorldMatrix M (objs (scene s) ! pm))) = (lx, ly, lz)"
          by (cases "transformCoordinates M pp (invert M (getWorldMatrix M (objs (scene s) ! pm)))")
        let ?s2 = "s\<lparr>redoPaths := [], invertedWorldMatrix := invert M (getWorldMatrix M (objs (scene s) ! pm))\<rparr>"
        have inv2: "canvasInv ?s2"
          using inv None by (simp add: canvasInv_def held_def)
        have sp: "startPath M ry s =
          (case createPath lx ly ?s2 of
                  Inl e \<Rightarrow> (Throw e, ?s2)
                | Inr (path, sc) \<Rightarrow>
                    (Return (JsBool True),
                     ?s2\<lparr>scene := sc\<lparr>objs := (objs sc)[path :=
                                      setupPath (createPathMaterial ?s2) pm (objs sc ! path)]\<rparr>,
                        currentPath := Some path\<rparr>))"
          using None Some Hit tc by (simp add: startPath_def Let_def)
        from createPath_cases [of lx ly ?s2] show ?thesis
        proof
          assume "\<exists>e. createPath lx ly ?s2 = Inl e"
          with sp inv2 show ?thesis by auto
        next
          assume "\<exists>opts. \<not> invalidOptions opts \<and> radius opts \<noteq> None \<and>
            createPath lx ly ?s2 =
              Inr (length (objs (scene ?s2)),
                (scene ?s2)\<lparr>objs := objs (scene ?s2) @
                          [(newMesh ''path'')\<lparr>pathData := Some \<lparr>options = opts, points = [(lx, ly)]\<rparr>\<rparr>],
                        meshes := meshes (scene ?s2) @ [length (objs (scene ?s2))]\<rparr>)"
          then obtain opts where ok: "\<not> invalidOptions opts" "radius opts \<noteq> None"
            and cp: "createPath lx ly ?s2 =
              Inr (length (objs (scene ?s2)),
                (scene ?s2)\<lparr>objs := objs (scene ?s2) @
                          [(newMesh ''path'')\<lparr>pathData := Some \<lparr>options = opts, points = [(lx, ly)]\<rparr>\<rparr>],
                        meshes := meshes (scene ?s2) @ [length (objs (scene ?s2))]\<rparr>)"
            by blast
          have hp: "\<forall>r\<in>set (paths s). 0 < r \<and> r < length (objs (scene s))"
            using inv None by (simp add: canvasInv_def held_def list_all_iff)
          have fresh: "length (objs (scene s)) \<notin> set (paths s)"
            using hp by blast
          have older: "list_all (\<lambda>r. 0 < r \<and> r < Suc (length (objs (scene s)))) (paths s)"
            using hp by (simp add: list_all_iff less_SucI)
          have nonempty: "0 < length (objs (scene s))"
            using inv by (cases "objs (scene s)") (simp_all add: canvasInv_def sceneInv_def)
          show ?thesis
            using inv None ok fresh older nonempty
            by (simp add: sp cp canvasInv_def held_def sceneInv_snoc isStroke_setupPath)
        qed
      qed
    qed
  qed
qed

lemma canvasInv_extendPath: "canvasInv s \<Longrightarrow> canvasInv (snd (extendPath M ry s))"
proof -
  assume inv: "canvasInv s"
  have upd: "sceneInv ((objs (scene s))[r := addPointToPath x y (objs (scene s) ! r)])" for r x y
    using inv by (intro sceneInv_update) (simp_all add: canvasInv_def pathData_addPointToPath name_addPointToPath isStroke_appendPoint)
  show ?thesis
    using inv upd
    by (auto simp: extendPath_def canvasInv_def held_def Let_def
        split: option.splits pickingInfo.splits prod.splits)
qed

lemma canvasInv_endPath: "canvasInv s \<Longrightarrow> canvasInv (endPath s)"
  by (auto simp: endPath_def canvasInv_def held_def split: option.splits)

lemma pop_Some: "pop xs = Some (x, rest) \<Longrightarrow> xs = rest @ [x]"
  by (auto simp: pop_def split: if_splits)

lemma canvasInv_undo: "canvasInv s \<Longrightarrow> canvasInv (undo s)"
  by (auto simp: undo_def canvasInv_def held_def removeMesh_def
      split: option.splits dest!: pop_Some)

lemma canvasInv_redo: "canvasInv s \<Longrightarrow> canvasInv (redo s)"
  by (auto simp: redo_def canvasInv_def held_def addMesh_def
      split: option.splits dest!: pop_Some)

lemma canvasInv_dispose:
  "canvasInv (s\<lparr>paths := rest @ [r]\<rparr>) \<Longrightarrow>
   canvasInv (s\<lparr>paths := rest, scene := dispose r (scene s)\<rparr>)"
proof -
  assume inv: "canvasInv (s\<lparr>paths := rest @ [r]\<rparr>)"
  have "sceneInv ((objs (scene s))[r := (objs (scene s) ! r)\<lparr>isDisposed := True\<rparr>])"
    using inv by (intro sceneInv_update) (auto simp: canvasInv_def isStroke_def split: option.splits)
  with inv show ?thesis
    by (auto simp: canvasInv_def held_def dispose_def)
qed

lemma canvasInv_clearLoop: "canvasInv s \<Longrightarrow> canvasInv (clearLoop s)"
proof (induction s rule: clearLoop.induct)
  case (1 s)
  show ?case
  proof (cases "pop (paths s)")
    case None
    with "1.prems" show ?thesis by (simp add: clearLoop.simps [of s])
  next
    case (Some pr)
    obtain path rest where pr: "pr = (path, rest)" by (cases pr)
    from Some pr have ps: "paths s = rest @ [path]" by (simp add: pop_Some)
    then have "s\<lparr>paths := rest @ [path]\<rparr> = s" by simp
    with "1.prems" have "canvasInv (s\<lparr>paths := rest, scene := dispose path (scene s)\<rparr>)"
      using canvasInv_dispose [where s = s and rest = rest and r = path] by simp
    with "1.IH" [OF Some pr [symmetric]] Some pr show ?thesis
      by (simp add: clearLoop.simps [of s])
  qed
qed

lemma canvasInv_clear: "canvasInv s \<Longrightarrow> canvasInv (clear s)"
  by (simp add: clear_def canvasInv_clearLoop)

lemma canvasInv_settings:
  "canvasInv s \<Longrightarrow> canvasInv (changeSize sz s)"
  "canvasInv s \<Longrightarrow> canvasInv (changeColor c s)"
  "canvasInv s \<Longrightarrow> canvasInv (usePen s)"
  by (simp_all add: changeSize_def changeColor_def usePen_def canvasInv_def held_def)

lemma canvasInv_fire: "canvasInv s \<Longrightarrow> canvasInv (fire M s e)"
  by (cases e)
    (simp_all add: canvasInv_startPath canvasInv_extendPath canvasInv_endPath canvasInv_undo
      canvasInv_redo canvasInv_clear canvasInv_settings)

lemma canvasInv_run: "canvasInv s \<Longrightarrow> canvasInv (run M evs s)"
  unfolding run_def by (induction evs arbitrary: s) (simp_all add: canvasInv_fire)

lemma canvasInv_reachable: "canvasInv (run M evs (InkCanvas createScene dbg))"
  by (simp add: canvasInv_run canvasInv_init)

lemma pick_cases: "pick sc ry = Some Miss \<or> (\<exists>r p. pick sc ry = Some (Hit r p) \<and> (r, p) \<in> set ry \<and>
   r \<in> set (meshes sc) \<and> r < length (objs sc) \<and> isPickable (objs sc ! r))"
  by (induction sc ry rule: pick.induct) auto

lemma sceneInv_plane:
  "sceneInv ms \<Longrightarrow> ms \<noteq> [] \<and> name (ms ! 0) = ''Drawing Plane 1'' \<and> pathData (ms ! 0) = None"
  by (cases ms) (simp_all add: sceneInv_def)

lemma sceneInv_pickable:
  "sceneInv ms \<Longrightarrow> r < length ms \<Longrightarrow> isPickable (ms ! r) \<Longrightarrow> r = 0"
  by (cases ms; cases r) (auto simp: sceneInv_def list_all_length isStroke_def split: option.splits)

lemma clearLoop_effect:
  "paths (clearLoop s) = [] \<and> redoPaths (clearLoop s) = redoPaths s \<and>
   currentPath (clearLoop s) = currentPath s \<and>
   disposeCalls (scene (clearLoop s)) = disposeCalls (scene s) @ rev (paths s) \<and>
   meshes (scene (clearLoop s)) = meshes (scene s)"
proof (induction s rule: clearLoop.induct)
  case (1 s)
  show ?case
  proof (cases "pop (paths s)")
    case None
    then show ?thesis by (simp add: clearLoop.simps [of s] pop_def split: if_splits)
  next
    case (Some pr)
    obtain path rest where pr: "pr = (path, rest)" by (cases pr)
    from Some pr have ps: "paths s = rest @ [path]" by (simp add: pop_Some)
    from "1.IH" [OF Some pr [symmetric]] Some pr ps show ?thesis
      by (simp add: clearLoop.simps [of s] dispose_def)
  qed
qed

lemma clearLoop_settings:
  "sizeScaleFactor (clearLoop s) = sizeScaleFactor s \<and> debug (clearLoop s) = debug s"
proof (induction s rule: clearLoop.induct)
  case (1 s)
  show ?case
  proof (cases "pop (paths s)")
    case None
    then show ?thesis by (simp add: clearLoop.simps [of s])
  next
    case (Some pr)
    obtain path rest where pr: "pr = (path, rest)" by (cases pr)
    from "1.IH" [OF Some pr [symmetric]] Some pr show ?thesis
      by (simp add: clearLoop.simps [of s])
  qed
qed

lemma startPath_settings:
  "sizeScaleFactor (snd (startPath M ry s)) = sizeScaleFactor s \<and>
   debug (snd (startPath M ry s)) = debug s"
  by (simp add: startPath_def Let_def split: option.splits pickingInfo.splits prod.splits sum.splits)

lemma extendPath_settings:
  "sizeScaleFactor (snd (extendPath M ry s)) = sizeScaleFactor s \<and>
   debug (snd (extendPath M ry s)) = debug s"
  by (simp add: extendPath_def Let_def split: option.splits pickingInfo.splits prod.splits)

lemma fire_settings:
  "sizeScaleFactor (fire M s e) = sizeScaleFactor s \<and> debug (fire M s e) = debug s"
  by (cases e)
    (auto simp: startPath_settings extendPath_settings clearLoop_settings endPath_def undo_def
      redo_def clear_def changeSize_def changeColor_def usePen_def split: option.splits)

lemma run_settings:
  "sizeScaleFactor (run M evs s) = sizeScaleFactor s \<and> debug (run M evs s) = debug s"
  unfolding run_def by (induction evs arbitrary: s) (simp_all add: fire_settings)

lemma reachable_scale: "sizeScaleFactor (run M evs (InkCanvas createScene dbg)) = 1 / 100"
  by (simp add: run_settings) (simp add: InkCanvas_def allocMesh_def Let_def)

lemma startPath_invalid:
  assumes "currentPath s = None" and "pick (scene s) ry = Some (Hit pm pp)"
    and "currentSize s * sizeScaleFactor s \<le> 0"
  shows "startPath M ry s =
     (Throw InvalidBrushParameter,
      s\<lparr>redoPaths := [],
        invertedWorldMatrix := invert M (getWorldMatrix M (objs (scene s) ! pm))\<rparr>)"
proof -
  have "invalidOptions (pathOptions (s\<lparr>redoPaths := [],
        invertedWorldMatrix := invert M (getWorldMatrix M (objs (scene s) ! pm))\<rparr>))"
    using assms(3) by (simp add: invalidOptions_def pathOptions_def Let_def)
  then show ?thesis
    using assms(1,2)
    by (simp add: startPath_def createPath_def newPathMesh_def Let_def split: prod.splits)
qed

lemma isStroke_not_degenerate: "isStroke m \<Longrightarrow> \<not> degenerate m"
  by (auto simp: isStroke_def degenerate_def split: option.splits)

lemma sceneInv_not_degenerate: "sceneInv ms \<Longrightarrow> list_all (\<lambda>m. \<not> degenerate m) ms"
proof (cases ms)
  case Nil
  then show ?thesis by simp
next
  case (Cons plane strokes)
  assume "sceneInv ms"
  with Cons have "pathData plane = None" and "list_all isStroke strokes"
    by (simp_all add: sceneInv_def)
  then have "\<not> degenerate plane" and "list_all (\<lambda>m. \<not> degenerate m) strokes"
    by (simp_all add: degenerate_def list_all_iff isStroke_not_degenerate [unfolded degenerate_def])
  with Cons show ?thesis by simp
qed

lemma startPath_success:
  assumes "startPath M ry s = (Return (JsBool True), s')"
  shows "currentPath s' = Some (length (objs (scene s))) \<and>
         length (objs (scene s')) = Suc (length (objs (scene s))) \<and>
         \<not> isPickable (objs (scene s') ! length (objs (scene s))) \<and>
         pathData (objs (scene s') ! length (objs (scene s))) \<noteq> None"
  using assms
  by (auto simp: startPath_def createPath_def newPathMesh_def allocMesh_def addMesh_def Let_def
      setupPath_def newMesh_def
      split: if_splits option.splits pickingInfo.splits prod.splits sum.splits)

lemma canvasInv_pick:
  assumes "canvasInv s" and "pick (scene s) ry = Some (Hit r p)"
  shows "r = 0"
proof -
  from pick_cases [of "scene s" ry] assms(2)
  have "r < length (objs (scene s))" and "isPickable (objs (scene s) ! r)"
    by auto
  with assms(1) show ?thesis
    by (auto simp: canvasInv_def dest: sceneInv_pickable)
qed

lemma sceneInv_unpickable:
  "sceneInv ms \<Longrightarrow> list_all (\<lambda>m. pathData m = None \<or> \<not> isPickable m) ms"
  by (cases ms) (auto simp: sceneInv_def list_all_iff isStroke_def split: option.splits)

lemma held_current:
  "distinct (held s) \<Longrightarrow> currentPath s = Some r \<Longrightarrow> r \<notin> set (paths s) \<and> r \<notin> set (redoPaths s)"
  by (auto simp: held_def)

lemma inCreationOrder_init: "inCreationOrder (InkCanvas createScene dbg)"
  by (simp add: inCreationOrder_def InkCanvas_def allocMesh_def Let_def)

lemma startPath_fields:
  "paths (snd (startPath M ry s)) = paths s \<and>
   (currentPath s \<noteq> None \<longrightarrow>
      redoPaths (snd (startPath M ry s)) = redoPaths s \<and>
      currentPath (snd (startPath M ry s)) = currentPath s) \<and>
   (currentPath s = None \<longrightarrow>
      redoPaths (snd (startPath M ry s)) = [] \<and>
      (currentPath (snd (startPath M ry s)) = None \<or>
       currentPath (snd (startPath M ry s)) = Some (length (objs (scene s)))))"
  by (auto simp: startPath_def createPath_def newPathMesh_def allocMesh_def addMesh_def Let_def
      split: option.splits pickingInfo.splits prod.splits sum.splits if_splits)

lemma inCreationOrder_startPath:
  assumes "canvasInv s" and "inCreationOrder s"
  shows "inCreationOrder (snd (startPath M ry s))"
proof (cases "currentPath s")
  case (Some r)
  with assms(2) startPath_fields [of M ry s] show ?thesis
    by (simp add: inCreationOrder_def)
next
  case None
  have older: "\<forall>r\<in>set (paths s). r < length (objs (scene s))"
    using assms(1) by (simp add: canvasInv_def held_def list_all_iff)
  have sorted: "sorted_wrt (<) (paths s)"
    using assms(2) None by (simp add: inCreationOrder_def sorted_wrt_append)
  from None startPath_fields [of M ry s] older sorted show ?thesis
    by (auto simp: inCreationOrder_def sorted_wrt_append)
qed

lemma extendPath_fields:
  "paths (snd (extendPath M ry s)) = paths s \<and>
   redoPaths (snd (extendPath M ry s)) = redoPaths s \<and>
   currentPath (snd (extendPath M ry s)) = currentPath s"
  by (simp add: extendPath_def Let_def split: option.splits pickingInfo.splits prod.splits)

lemma inCreationOrder_clearLoop:
  "currentPath s = None \<Longrightarrow> inCreationOrder s \<Longrightarrow> inCreationOrder (clearLoop s)"
  using clearLoop_effect [of s] by (simp add: inCreationOrder_def sorted_wrt_append)

lemma inCreationOrder_fire:
  assumes "canvasInv s" and "inCreationOrder s"
  shows "inCreationOrder (fire M s e)"
proof (cases e)
  case (StartPath ry)
  with assms show ?thesis by (simp add: inCreationOrder_startPath)
next
  case (ExtendPath ry)
  with assms(2) show ?thesis by (simp add: inCreationOrder_def extendPath_fields)
next
  case EndPath
  with assms(2) show ?thesis
    by (auto simp: inCreationOrder_def endPath_def split: option.splits)
next
  case Undo
  with assms(2) show ?thesis
    by (auto simp: inCreationOrder_def undo_def split: option.splits dest!: pop_Some)
next
  case Redo
  with assms(2) show ?thesis
    by (auto simp: inCreationOrder_def redo_def split: option.splits dest!: pop_Some)
next
  case Clear
  with assms(2) show ?thesis
    by (simp add: clear_def inCreationOrder_clearLoop)
next
  case (ChangeSize sz)
  with assms(2) show ?thesis by (simp add: inCreationOrder_def changeSize_def)
next
  case (ChangeColor c)
  with assms(2) show ?thesis by (simp add: inCreationOrder_def changeColor_def usePen_def)
next
  case UsePen
  with assms(2) show ?thesis by (simp add: inCreationOrder_def usePen_def)
qed

lemma inCreationOrder_run:
  "canvasInv s \<Longrightarrow> inCreationOrder s \<Longrightarrow> inCreationOrder (run M evs s)"
  unfolding run_def
  by (induction evs arbitrary: s) (simp_all add: canvasInv_fire inCreationOrder_fire)

lemma inCreationOrder_reachable: "inCreationOrder (run M evs (InkCanvas createScene dbg))"
  by (simp add: inCreationOrder_run canvasInv_init inCreationOrder_init)

lemma planeInv_init: "planeInv (InkCanvas createScene dbg)"
  by (simp add: planeInv_def InkCanvas_def createScene_def allocMesh_def addMesh_def newMesh_def
      Let_def)

lemma planeInv_startPath: "planeInv s \<Longrightarrow> planeInv (snd (startPath M ry s))"
  by (auto simp: planeInv_def startPath_def createPath_def newPathMesh_def allocMesh_def
      addMesh_def Let_def nth_append
      split: option.splits pickingInfo.splits prod.splits sum.splits if_splits)

lemma held_positive: "canvasInv s \<Longrightarrow> r \<in> set (held s) \<Longrightarrow> 0 < r"
  by (simp add: canvasInv_def list_all_iff)

lemma planeInv_extendPath:
  assumes "canvasInv s" and "planeInv s"
  shows "planeInv (snd (extendPath M ry s))"
proof (cases "currentPath s")
  case None
  with assms(2) show ?thesis by (simp add: extendPath_def)
next
  case (Some path)
  then have "0 < path"
    using held_positive [OF assms(1), of path] by (simp add: held_def)
  with assms(2) Some show ?thesis
    by (auto simp: extendPath_def planeInv_def Let_def
        split: option.splits pickingInfo.splits prod.splits)
qed

lemma planeInv_undo:
  assumes "canvasInv s" and "planeInv s"
  shows "planeInv (undo s)"
proof -
  have "0 \<in> set (remove1 path (meshes (scene s)))" if "paths s = rest @ [path]" for path rest
  proof -
    have "0 < path"
      using held_positive [OF assms(1), of path] that by (simp add: held_def)
    with assms(2) show ?thesis by (simp add: planeInv_def)
  qed
  with assms(2) show ?thesis
    by (auto simp: undo_def planeInv_def removeMesh_def split: option.splits dest!: pop_Some)
qed

lemma planeInv_redo: "planeInv s \<Longrightarrow> planeInv (redo s)"
  by (auto simp: redo_def planeInv_def addMesh_def split: option.splits)

lemma planeInv_clearLoop: "canvasInv s \<Longrightarrow> planeInv s \<Longrightarrow> planeInv (clearLoop s)"
proof (induction s rule: clearLoop.induct)
  case (1 s)
  show ?case
  proof (cases "pop (paths s)")
    case None
    with "1.prems" show ?thesis by (simp add: clearLoop.simps [of s])
  next
    case (Some pr)
    obtain path rest where pr: "pr = (path, rest)" by (cases pr)
    from Some pr have ps: "paths s = rest @ [path]" by (simp add: pop_Some)
    then have "s\<lparr>paths := rest @ [path]\<rparr> = s" by simp
    with "1.prems" have inv': "canvasInv (s\<lparr>paths := rest, scene := dispose path (scene s)\<rparr>)"
      using canvasInv_dispose [where s = s and rest = rest and r = path] by simp
    have "0 < path"
      using held_positive [OF "1.prems"(1), of path] ps by (simp add: held_def)
    with "1.prems"(2) have "planeInv (s\<lparr>paths := rest, scene := dispose path (scene s)\<rparr>)"
      by (simp add: planeInv_def dispose_def)
    with "1.IH" [OF Some pr [symmetric] inv'] Some pr show ?thesis
      by (simp add: clearLoop.simps [of s])
  qed
qed

lemma planeInv_fire:
  assumes "canvasInv s" and "planeInv s"
  shows "planeInv (fire M s e)"
proof (cases e)
  case (StartPath ry)
  with assms show ?thesis by (simp add: planeInv_startPath)
next
  case (ExtendPath ry)
  with assms show ?thesis by (simp add: planeInv_extendPath)
next
  case EndPath
  with assms(2) show ?thesis by (simp add: planeInv_def endPath_def split: option.splits)
next
  case Undo
  with assms show ?thesis by (simp add: planeInv_undo)
next
  case Redo
  with assms show ?thesis by (simp add: planeInv_redo)
next
  case Clear
  with assms show ?thesis by (simp add: clear_def planeInv_clearLoop)
next
  case (ChangeSize sz)
  with assms(2) show ?thesis by (simp add: planeInv_def changeSize_def)
next
  case (ChangeColor c)
  with assms(2) show ?thesis by (simp add: planeInv_def changeColor_def usePen_def)
next
  case UsePen
  with assms(2) show ?thesis by (simp add: planeInv_def usePen_def)
qed

lemma planeInv_run: "canvasInv s \<Longrightarrow> planeInv s \<Longrightarrow> planeInv (run M evs s)"
  unfolding run_def
  by (induction evs arbitrary: s) (simp_all add: canvasInv_fire planeInv_fire)

lemma planeInv_reachable: "planeInv (run M evs (InkCanvas createScene dbg))"
  by (simp add: planeInv_run canvasInv_init planeInv_init)

lemma pick_through:
  assumes "canvasInv s" and "planeInv s" and "list_all (\<lambda>(r, q). r \<noteq> 0) pre"
  shows "pick (scene s) (pre @ (0, p) # rest) = Some (Hit 0 p)"
  using assms(3)
proof (induction pre)
  case Nil
  from assms(2) show ?case by (simp add: planeInv_def)
next
  case (Cons e pre)
  obtain r q where e: "e = (r, q)" by (cases e)
  with Cons.prems have "r \<noteq> 0" and rest: "list_all (\<lambda>(r, q). r \<noteq> 0) pre"
    by simp_all
  have "\<not> (r < length (objs (scene s)) \<and> isPickable (objs (scene s) ! r))"
    using assms(1) \<open>r \<noteq> 0\<close> by (auto simp: canvasInv_def dest: sceneInv_pickable)
  with e Cons.IH [OF rest] show ?case by auto
qed

lemma invalidOptions_pathOptions:
  "invalidOptions (pathOptions s) \<longleftrightarrow> currentSize s * sizeScaleFactor s \<le> 0"
  by (simp add: invalidOptions_def pathOptions_def Let_def)

lemma startPath_hit:
  assumes "currentPath s = None" and "pick (scene s) ry = Some (Hit pm pp)"
    and "0 < currentSize s * sizeScaleFactor s"
  shows "startPath M ry s =
     (Return (JsBool True),
      s\<lparr>redoPaths := [],
        invertedWorldMatrix := invert M (getWorldMatrix M (objs (scene s) ! pm)),
        scene := (scene s)
          \<lparr>objs := objs (scene s) @
             [setupPath (createPathMaterial s) pm
                ((newMesh ''path'')\<lparr>pathData :=
                   Some \<lparr>options = pathOptions s, points = [localPoint M s pm pp]\<rparr>\<rparr>)],
           meshes := meshes (scene s) @ [length (objs (scene s))]\<rparr>,
        currentPath := Some (length (objs (scene s)))\<rparr>)"
proof -
  have valid: "\<not> invalidOptions (pathOptions s)"
    using assms(3) by (simp add: invalidOptions_pathOptions)
  have po: "pathOptions (s\<lparr>redoPaths := [], invertedWorldMatrix := W\<rparr>) = pathOptions s" for W
    by (simp add: pathOptions_def)
  have pm: "createPathMaterial (s\<lparr>redoPaths := [], invertedWorldMatrix := W\<rparr>) =
      createPathMaterial s" for W
    by (simp add: createPathMaterial_def)
  show ?thesis
    using assms(1,2) valid
    by (simp add: startPath_def createPath_def newPathMesh_def allocMesh_def addMesh_def
        localPoint_def po pm Let_def split: prod.splits)
qed

lemma extendPath_forward:
  assumes "currentPath s = Some path" and "pick (scene s) ry = Some (Hit pm pp)"
  shows "extendPath M ry s =
     (Return (JsBool True),
      s\<lparr>invertedWorldMatrix := invert M (getWorldMatrix M (objs (scene s) ! pm)),
        scene := (scene s)\<lparr>objs := (objs (scene s))[path :=
                   addPointToPath (fst (localPoint M s pm pp)) (snd (localPoint M s pm pp))
                     (objs (scene s) ! path)]\<rparr>\<rparr>)"
  using assms by (simp add: extendPath_def localPoint_def Let_def split: prod.splits)

section \<open>Evaluating the examples\<close>

lemmas canvas_defs =
  run_def InkCanvas_def createScene_def allocMesh_def addMesh_def newMesh_def startPath_def
  extendPath_def endPath_def undo_def redo_def clear_def pop_def createPath_def pathOptions_def
  newPathMesh_def invalidOptions_def identityMath_def setupPath_def createPathMaterial_def
  addPointToPath_def appendPoint_def debounceDistance_def removeMesh_def dispose_def
  changeSize_def changeColor_def usePen_def pen_def misses_def

lemma undoneStroke_fields:
  "currentPath undoneStroke = None"
  "paths undoneStroke = []"
  "redoPaths undoneStroke = [1]"
  "meshes (scene undoneStroke) = [0]"
  "length (objs (scene undoneStroke)) = 2"
  by (simp_all add: undoneStroke_def canvas_defs Let_def)

lemma twoStrokes_fields:
  "currentPath twoStrokes = None"
  "paths twoStrokes = [1, 2]"
  "redoPaths twoStrokes = []"
  "meshes (scene twoStrokes) = [0, 1, 2]"
  "length (objs (scene twoStrokes)) = 3"
  "disposeCalls (scene twoStrokes) = []"
  by (simp_all add: twoStrokes_def canvas_defs Let_def)

lemma oneUndone_fields:
  "currentPath oneUndone = None"
  "paths oneUndone = [1, 2]"
  "redoPaths oneUndone = [3]"
  "meshes (scene oneUndone) = [0, 1, 2]"
  "disposeCalls (scene oneUndone) = []"
  by (simp_all add: oneUndone_def twoStrokes_def canvas_defs Let_def)

lemma drawing_fields:
  "currentPath drawing = Some 1"
  "paths drawing = []"
  "redoPaths drawing = []"
  "meshes (scene drawing) = [0, 1]"
  "length (objs (scene drawing)) = 2"
  by (simp_all add: drawing_def canvas_defs Let_def)

lemma zeroSize_fields:
  "currentPath zeroSize = None"
  "paths zeroSize = []"
  "redoPaths zeroSize = [1]"
  "meshes (scene zeroSize) = [0]"
  "currentSize zeroSize = 0"
  "length (objs (scene zeroSize)) = 2"
  "isPickable (objs (scene zeroSize) ! 0)"
  by (simp_all add: zeroSize_def undoneStroke_def canvas_defs Let_def)

lemma drawingSecond_fields:
  "currentPath drawingSecond = Some 2"
  "paths drawingSecond = [1]"
  "redoPaths drawingSecond = []"
  "meshes (scene drawingSecond) = [0, 1, 2]"
  "disposeCalls (scene drawingSecond) = []"
  by (simp_all add: drawingSecond_def canvas_defs Let_def)

lemma drawingOverUndone_fields:
  "currentPath drawingOverUndone = Some 3"
  "paths drawingOverUndone = [1]"
  "redoPaths drawingOverUndone = [2]"
  "meshes (scene drawingOverUndone) = [0, 1, 2, 3]"
  "disposeCalls (scene drawingOverUndone) = []"
  by (simp_all add: drawingOverUndone_def canvas_defs Let_def)

lemma oneStroke_fields:
  "currentPath oneStroke = None"
  "paths oneStroke = [1]"
  "currentSize oneStroke = 5"
  "length (objs (scene oneStroke)) = 2"
  "pathData (objs (scene oneStroke) ! 0) = None"
  by (simp_all add: oneStroke_def canvas_defs Let_def)

section \<open>The claims\<close>

subsection \<open>C1: startPath on a pick that misses\<close>

text \<open>
  C1, as stated: in every idle state, \<open>startPath\<close> on a pick that misses returns false
  and leaves the whole state of the canvas as it was. This fails where the redo list is
  not empty: \<open>startPath\<close> empties the redo list before it picks. With one undone stroke on
  the redo list, a miss returns false and the redo list is empty afterwards.
\<close>

theorem C1_counterexample:
  "currentPath undoneStroke = None \<and> misses (scene undoneStroke) [] \<and>
   fst (startPath identityMath [] undoneStroke) = Return (JsBool False) \<and>
   redoPaths undoneStroke = [1] \<and>
   redoPaths (snd (startPath identityMath [] undoneStroke)) = [] \<and>
   snd (startPath identityMath [] undoneStroke) \<noteq> undoneStroke"
proof -
  have "redoPaths (snd (startPath identityMath [] undoneStroke)) = []"
    by (simp add: startPath_def undoneStroke_fields)
  moreover have "redoPaths undoneStroke = [1]"
    by (simp add: undoneStroke_fields)
  ultimately have "snd (startPath identityMath [] undoneStroke) \<noteq> undoneStroke"
    by auto
  then show ?thesis
    by (simp add: startPath_def undoneStroke_fields misses_def)
qed

text \<open>
  C1, amended: in every idle state, \<open>startPath\<close> on a pick that misses returns false,
  leaves the undo list, the path in progress (none), the scene and the brush settings as
  they were, and empties the redo list; the state is unchanged exactly when the redo list
  was empty already.
\<close>

theorem C1_startPath_miss:
  assumes "currentPath s = None" and "misses (scene s) ry"
  shows "startPath M ry s = (Return (JsBool False), s\<lparr>redoPaths := []\<rparr>) \<and>
         (snd (startPath M ry s) = s \<longleftrightarrow> redoPaths s = [])"
proof -
  have eq: "startPath M ry s = (Return (JsBool False), s\<lparr>redoPaths := []\<rparr>)"
    using assms by (simp add: startPath_def misses_def split: option.splits pickingInfo.splits)
  have "s\<lparr>redoPaths := []\<rparr> = s \<longleftrightarrow> redoPaths s = []"
    by (metis inkCanvas.select_convs(4) inkCanvas.surjective inkCanvas.update_convs(4))
  with eq show ?thesis by simp
qed

text \<open>
  The amended C1 at the example: one undone stroke, a pointer ray that meets nothing.
\<close>

theorem C1_startPath_miss_witness:
  "currentPath undoneStroke = None \<and> misses (scene undoneStroke) [] \<and>
   startPath identityMath [] undoneStroke =
     (Return (JsBool False), undoneStroke\<lparr>redoPaths := []\<rparr>)"
  using C1_startPath_miss [of undoneStroke "[]" identityMath]
  by (simp add: undoneStroke_fields misses_def)

subsection \<open>C2: undo, undo, redo on two strokes\<close>

text \<open>
  C2, as stated: after two completed strokes, \<open>undo(); undo(); redo()\<close> leaves one stroke
  on the undo list and one on the redo list, and the stroke that \<open>redo\<close> attaches to the
  scene again is the second-created one. The last part fails: the second \<open>undo\<close> pushes
  the first-created stroke on top of the redo list, and \<open>redo\<close> pops that one. In the
  example the first \<open>startPath\<close> creates object 1 and the second creates object 2; after
  the three calls object 1 is back in the scene and object 2 is not.
\<close>

theorem C2_counterexample:
  "currentPath (run identityMath [StartPath [(0, (0, 0, 0))]] (InkCanvas createScene False)) = Some 1 \<and>
   currentPath (run identityMath [StartPath [(0, (0, 0, 0))], EndPath, StartPath [(0, (1, 1, 0))]]
     (InkCanvas createScene False)) = Some 2 \<and>
   paths twoStrokes = [1, 2] \<and> redoPaths twoStrokes = [] \<and> currentPath twoStrokes = None \<and>
   meshes (scene (undo (undo twoStrokes))) = [0] \<and>
   meshes (scene (redo (undo (undo twoStrokes)))) = [0, 1] \<and>
   paths (redo (undo (undo twoStrokes))) = [1] \<and>
   redoPaths (redo (undo (undo twoStrokes))) = [2] \<and>
   2 \<notin> set (meshes (scene (redo (undo (undo twoStrokes)))))"
  by (simp add: twoStrokes_def canvas_defs Let_def)

text \<open>
  C2, amended: from an idle state whose undo list holds exactly the strokes \<open>a\<close> and \<open>b\<close>,
  in this order, and whose redo list is empty, \<open>undo(); undo(); redo()\<close> ends with the undo
  list holding exactly \<open>a\<close>, the redo list holding exactly \<open>b\<close>, and the stroke that
  \<open>redo\<close> attaches to the scene again being \<open>a\<close>: the stroke undone last is redone first.
  In every state the page's canvas reaches, \<open>a\<close> is the first-created of the two (its
  reference is the smaller one).
\<close>

theorem C2_undo_undo_redo:
  "(currentPath s = None \<and> paths s = [a, b] \<and> redoPaths s = [] \<longrightarrow>
      paths (redo (undo (undo s))) = [a] \<and>
      redoPaths (redo (undo (undo s))) = [b] \<and>
      length (paths (redo (undo (undo s)))) = 1 \<and>
      length (redoPaths (redo (undo (undo s)))) = 1 \<and>
      meshes (scene (undo (undo s))) = remove1 a (remove1 b (meshes (scene s))) \<and>
      meshes (scene (redo (undo (undo s)))) = meshes (scene (undo (undo s))) @ [a]) \<and>
   (paths (run M evs (InkCanvas createScene dbg)) = [a, b] \<longrightarrow> a < b)"
proof -
  have "a < b" if "paths (run M evs (InkCanvas createScene dbg)) = [a, b]"
    using inCreationOrder_reachable [of M evs dbg] that
    by (simp add: inCreationOrder_def sorted_wrt_append)
  then show ?thesis
    by (simp add: undo_def redo_def pop_def removeMesh_def addMesh_def)
qed

text \<open>
  The amended C2 at the two strokes of the example.
\<close>

theorem C2_undo_undo_redo_witness:
  "currentPath twoStrokes = None \<and> paths twoStrokes = [1, 2] \<and> redoPaths twoStrokes = [] \<and>
   paths (redo (undo (undo twoStrokes))) = [1] \<and>
   redoPaths (redo (undo (undo twoStrokes))) = [2] \<and>
   meshes (scene (redo (undo (undo twoStrokes)))) = [0, 1] \<and>
   paths (run identityMath [StartPath [(0, (0, 0, 0))], EndPath, StartPath [(0, (1, 1, 0))], EndPath]
     (InkCanvas createScene False)) = [1, 2] \<and> (1 :: nat) < 2"
  using C2_undo_undo_redo [of twoStrokes 1 2 identityMath
      "[StartPath [(0, (0, 0, 0))], EndPath, StartPath [(0, (1, 1, 0))], EndPath]" False]
    twoStrokes_fields
  by (simp add: twoStrokes_def)

subsection \<open>C3: clear\<close>

text \<open>
  C3: in every idle state with \<open>N > 0\<close> strokes on the undo list, \<open>clear\<close> leaves the undo
  list empty, issues exactly \<open>N\<close> \<open>dispose\<close> calls, one for each stroke popped (the most
  recent first), and leaves the redo list as it was.
\<close>

theorem C3_clear:
  assumes "currentPath s = None" and "0 < length (paths s)"
  shows "paths (clear s) = [] \<and>
         disposeCalls (scene (clear s)) = disposeCalls (scene s) @ rev (paths s) \<and>
         length (disposeCalls (scene (clear s))) =
           length (disposeCalls (scene s)) + length (paths s) \<and>
         redoPaths (clear s) = redoPaths s"
  using assms clearLoop_effect [of s] by (simp add: clear_def)

text \<open>
  C3 at the example: two strokes on the undo list, one on the redo list.
\<close>

theorem C3_clear_witness:
  "currentPath oneUndone = None \<and> 0 < length (paths oneUndone) \<and>
   paths (clear oneUndone) = [] \<and>
   disposeCalls (scene (clear oneUndone)) = [2, 1] \<and>
   redoPaths (clear oneUndone) = [3]"
  using C3_clear [of oneUndone] by (simp add: oneUndone_fields)

subsection \<open>C4: undo then redo after endPath\<close>

text \<open>
  C4: once \<open>endPath\<close> has committed the stroke \<open>r\<close>, \<open>undo\<close> followed by \<open>redo\<close> is a
  round trip: the undo list and the redo list are again what they were right after
  \<open>endPath\<close> (so their sizes are too), the same object \<open>r\<close> is on top of the undo list
  and attached to the scene, and no mesh object has changed. In between, \<open>undo\<close> has
  moved \<open>r\<close> to the redo list and removed it from the scene.
\<close>

theorem C4_undo_redo_roundtrip:
  assumes "currentPath s = Some r"
  shows "paths (endPath s) = paths s @ [r] \<and>
         paths (redo (undo (endPath s))) = paths (endPath s) \<and>
         last (paths (redo (undo (endPath s)))) = r \<and>
         redoPaths (redo (undo (endPath s))) = redoPaths (endPath s) \<and>
         length (paths (redo (undo (endPath s)))) = length (paths (endPath s)) \<and>
         length (redoPaths (redo (undo (endPath s)))) = length (redoPaths (endPath s)) \<and>
         currentPath (redo (undo (endPath s))) = None \<and>
         r \<in> set (meshes (scene (redo (undo (endPath s))))) \<and>
         objs (scene (redo (undo (endPath s)))) = objs (scene (endPath s)) \<and>
         paths (undo (endPath s)) = paths s \<and>
         redoPaths (undo (endPath s)) = redoPaths s @ [r] \<and>
         meshes (scene (undo (endPath s))) = remove1 r (meshes (scene (endPath s)))"
  using assms by (simp add: endPath_def undo_def redo_def pop_def removeMesh_def addMesh_def)

text \<open>
  C4 at the example: the stroke in progress on a new canvas.
\<close>

theorem C4_undo_redo_roundtrip_witness:
  "currentPath drawing = Some 1 \<and>
   paths (redo (undo (endPath drawing))) = [1] \<and>
   redoPaths (redo (undo (endPath drawing))) = [] \<and>
   meshes (scene (undo (endPath drawing))) = [0] \<and>
   1 \<in> set (meshes (scene (redo (undo (endPath drawing)))))"
  using C4_undo_redo_roundtrip [of drawing 1]
  by (simp add: drawing_fields endPath_def)

subsection \<open>C5: a radius that is not positive\<close>

text \<open>
  C5, as stated: with a radius that is not positive, \<open>startPath\<close> fails with
  \<open>InvalidBrushParameter\<close>, the canvas stays idle, no stroke is created and no existing
  state is corrupted. Against the constructor of \<open>PathMesh\<close> as the spec describes it,
  the call does fail and creates nothing, but it does not leave the state as it was: the
  redo list is emptied before the pick, so the undone stroke of the example can no longer
  be redone after the failed call.
\<close>

theorem C5_counterexample:
  "currentPath zeroSize = None \<and>
   pick (scene zeroSize) [(0, (0, 0, 0))] = Some (Hit 0 (0, 0, 0)) \<and>
   currentSize zeroSize * sizeScaleFactor zeroSize \<le> 0 \<and>
   fst (startPath identityMath [(0, (0, 0, 0))] zeroSize) = Throw InvalidBrushParameter \<and>
   redoPaths zeroSize = [1] \<and>
   redoPaths (snd (startPath identityMath [(0, (0, 0, 0))] zeroSize)) = [] \<and>
   snd (startPath identityMath [(0, (0, 0, 0))] zeroSize) \<noteq> zeroSize"
proof -
  have pk: "pick (scene zeroSize) [(0, (0, 0, 0))] = Some (Hit 0 (0, 0, 0))"
    by (simp add: zeroSize_fields)
  have sz: "currentSize zeroSize * sizeScaleFactor zeroSize \<le> 0"
    by (simp add: zeroSize_fields)
  note sp = startPath_invalid [OF zeroSize_fields(1) pk sz, of identityMath]
  have "redoPaths (snd (startPath identityMath [(0, (0, 0, 0))] zeroSize)) = []"
    by (simp add: sp)
  moreover have "redoPaths zeroSize = [1]"
    by (simp add: zeroSize_fields)
  ultimately have "snd (startPath identityMath [(0, (0, 0, 0))] zeroSize) \<noteq> zeroSize"
    by auto
  then show ?thesis
    using pk sz by (simp add: sp zeroSize_fields)
qed

text \<open>
  C5, amended: in an idle state, when the pick hits and the radius
  \<open>_currentSize * _sizeScaleFactor\<close> is not positive, \<open>startPath\<close> fails with
  \<open>InvalidBrushParameter\<close>; the canvas stays idle, no stroke is created, the undo list,
  the scene with all its meshes and the brush settings are as before; the redo list is
  emptied and the scratch matrix overwritten. On the page's canvas this is what happens
  after \<open>changeSize\<close> with a value that is not positive, and no mesh of any state the
  canvas reaches is degenerate.
\<close>

theorem C5_invalid_radius:
  "(currentPath s = None \<and> pick (scene s) ry = Some (Hit pm pp) \<and>
    currentSize s * sizeScaleFactor s \<le> 0 \<longrightarrow>
      startPath M ry s =
        (Throw InvalidBrushParameter,
         s\<lparr>redoPaths := [],
           invertedWorldMatrix := invert M (getWorldMatrix M (objs (scene s) ! pm))\<rparr>)) \<and>
   (sz \<le> 0 \<and> currentPath (run M evs (InkCanvas createScene dbg)) = None \<and>
    pick (scene (run M evs (InkCanvas createScene dbg))) ry = Some (Hit pm pp) \<longrightarrow>
      fst (startPath M ry (changeSize sz (run M evs (InkCanvas createScene dbg)))) =
        Throw InvalidBrushParameter \<and>
      currentPath (snd (startPath M ry (changeSize sz (run M evs (InkCanvas createScene dbg))))) =
        None \<and>
      paths (snd (startPath M ry (changeSize sz (run M evs (InkCanvas createScene dbg))))) =
        paths (run M evs (InkCanvas createScene dbg)) \<and>
      scene (snd (startPath M ry (changeSize sz (run M evs (InkCanvas createScene dbg))))) =
        scene (run M evs (InkCanvas createScene dbg)) \<and>
      redoPaths (snd (startPath M ry (changeSize sz (run M evs (InkCanvas createScene dbg))))) =
        []) \<and>
   list_all (\<lambda>m. \<not> degenerate m) (objs (scene (run M evs (InkCanvas createScene dbg))))"
proof -
  let ?t = "run M evs (InkCanvas createScene dbg)"
  have nd: "list_all (\<lambda>m. \<not> degenerate m) (objs (scene ?t))"
    using canvasInv_reachable [of M evs dbg] by (simp add: canvasInv_def sceneInv_not_degenerate)
  have after: "fst (startPath M ry (changeSize sz ?t)) = Throw InvalidBrushParameter \<and>
      currentPath (snd (startPath M ry (changeSize sz ?t))) = None \<and>
      paths (snd (startPath M ry (changeSize sz ?t))) = paths ?t \<and>
      scene (snd (startPath M ry (changeSize sz ?t))) = scene ?t \<and>
      redoPaths (snd (startPath M ry (changeSize sz ?t))) = []"
    if neg: "sz \<le> 0" and idle: "currentPath ?t = None"
      and hit: "pick (scene ?t) ry = Some (Hit pm pp)"
  proof -
    have cs: "currentSize (changeSize sz ?t) = sz"
      by (simp add: changeSize_def)
    have sf: "sizeScaleFactor (changeSize sz ?t) = 1 / 100"
      by (simp add: changeSize_def reachable_scale)
    have le: "currentSize (changeSize sz ?t) * sizeScaleFactor (changeSize sz ?t) \<le> 0"
      using neg by (simp add: cs sf)
    have idle': "currentPath (changeSize sz ?t) = None"
      using idle by (simp add: changeSize_def)
    have hit': "pick (scene (changeSize sz ?t)) ry = Some (Hit pm pp)"
      using hit by (simp add: changeSize_def)
    show ?thesis
      using idle by (simp add: startPath_invalid [OF idle' hit' le]) (simp add: changeSize_def)
  qed
  show ?thesis
    using nd after by (simp add: startPath_invalid)
qed

text \<open>
  The amended C5 at the example (size 0, one undone stroke) and on a new canvas after
  \<open>changeSize(-1)\<close>.
\<close>

theorem C5_invalid_radius_witness:
  "currentPath zeroSize = None \<and>
   pick (scene zeroSize) [(0, (0, 0, 0))] = Some (Hit 0 (0, 0, 0)) \<and>
   currentSize zeroSize * sizeScaleFactor zeroSize \<le> 0 \<and>
   fst (startPath identityMath [(0, (0, 0, 0))] zeroSize) = Throw InvalidBrushParameter \<and>
   currentPath (snd (startPath identityMath [(0, (0, 0, 0))] zeroSize)) = None \<and>
   paths (snd (startPath identityMath [(0, (0, 0, 0))] zeroSize)) = [] \<and>
   (- 1 :: real) \<le> 0 \<and> currentPath (run identityMath [] (InkCanvas createScene False)) = None \<and>
   pick (scene (run identityMath [] (InkCanvas createScene False))) [(0, (0, 0, 0))] =
     Some (Hit 0 (0, 0, 0)) \<and>
   fst (startPath identityMath [(0, (0, 0, 0))]
     (changeSize (- 1) (run identityMath [] (InkCanvas createScene False)))) =
     Throw InvalidBrushParameter"
proof -
  have pk: "pick (scene zeroSize) [(0, (0, 0, 0))] = Some (Hit 0 (0, 0, 0))"
    by (simp add: zeroSize_fields)
  have sz: "currentSize zeroSize * sizeScaleFactor zeroSize \<le> 0"
    by (simp add: zeroSize_fields)
  have init: "currentPath (run identityMath [] (InkCanvas createScene False)) = None \<and>
    pick (scene (run identityMath [] (InkCanvas createScene False))) [(0, (0, 0, 0))] =
     Some (Hit 0 (0, 0, 0))"
    by (simp add: canvas_defs Let_def)
  show ?thesis
    using C5_invalid_radius [of zeroSize "[(0, (0, 0, 0))]" 0 "(0, 0, 0)" identityMath "- 1" "[]" False]
      pk sz init zeroSize_fields(1,2)
    by simp
qed

subsection \<open>C6: undo, redo and clear while drawing\<close>

text \<open>
  C6: while a stroke is in progress, \<open>undo\<close>, \<open>redo\<close> and \<open>clear\<close> change nothing: the
  lists, the path in progress, the scene's mesh list, every mesh object and the record of
  \<open>dispose\<close> calls are all as before.
\<close>

theorem C6_history_noop_while_drawing:
  assumes "currentPath s \<noteq> None"
  shows "undo s = s \<and> redo s = s \<and> clear s = s"
  using assms by (auto simp: undo_def redo_def clear_def)

text \<open>
  C6 at the examples: the second stroke in progress with the first on the undo list,
  where \<open>undo\<close> and \<open>clear\<close> would have a stroke to take, and the state with a stroke
  on the redo list as well, where \<open>redo\<close> would too. Nothing is popped, detached,
  attached or disposed.
\<close>

theorem C6_history_noop_while_drawing_witness:
  "currentPath drawingSecond \<noteq> None \<and> 0 < length (paths drawingSecond) \<and>
   undo drawingSecond = drawingSecond \<and> redo drawingSecond = drawingSecond \<and>
   clear drawingSecond = drawingSecond \<and>
   paths (undo drawingSecond) = [1] \<and> redoPaths (undo drawingSecond) = [] \<and>
   meshes (scene (undo drawingSecond)) = [0, 1, 2] \<and>
   paths (clear drawingSecond) = [1] \<and> disposeCalls (scene (clear drawingSecond)) = [] \<and>
   currentPath drawingOverUndone \<noteq> None \<and> 0 < length (paths drawingOverUndone) \<and>
   0 < length (redoPaths drawingOverUndone) \<and>
   undo drawingOverUndone = drawingOverUndone \<and> redo drawingOverUndone = drawingOverUndone \<and>
   clear drawingOverUndone = drawingOverUndone \<and>
   paths (redo drawingOverUndone) = [1] \<and> redoPaths (redo drawingOverUndone) = [2] \<and>
   meshes (scene (redo drawingOverUndone)) = [0, 1, 2, 3]"
  using C6_history_noop_while_drawing [of drawingSecond]
    C6_history_noop_while_drawing [of drawingOverUndone]
  by (simp add: drawingSecond_fields drawingOverUndone_fields)

subsection \<open>C7: startPath while drawing\<close>

text \<open>
  C7: while a stroke is in progress, a second \<open>startPath\<close> changes nothing (it returns
  at once, and no stroke is created). The canvas holds at most one stroke in progress
  (\<open>_currentPath\<close> is one nullable reference), and in every state the page's canvas
  reaches the held strokes are distinct objects, so the stroke in progress is on neither
  list.
\<close>

theorem C7_single_stroke_in_progress:
  "(currentPath s \<noteq> None \<longrightarrow> startPath M ry s = (Return JsUndefined, s)) \<and>
   distinct (held (run M evs (InkCanvas createScene dbg))) \<and>
   (\<forall>r. currentPath (run M evs (InkCanvas createScene dbg)) = Some r \<longrightarrow>
      r \<notin> set (paths (run M evs (InkCanvas createScene dbg))) \<and>
      r \<notin> set (redoPaths (run M evs (InkCanvas createScene dbg))))"
proof -
  have "canvasInv (run M evs (InkCanvas createScene dbg))"
    by (rule canvasInv_reachable)
  then have "distinct (held (run M evs (InkCanvas createScene dbg)))"
    by (simp add: canvasInv_def)
  then show ?thesis
    by (auto simp: startPath_def dest: held_current)
qed

text \<open>
  C7 at the examples: a second \<open>startPath\<close> on the stroke in progress, and the second
  stroke (object 2) in progress while the first is on the undo list.
\<close>

theorem C7_single_stroke_in_progress_witness:
  "currentPath drawing \<noteq> None \<and>
   startPath identityMath [(0, (3, 3, 0))] drawing = (Return JsUndefined, drawing) \<and>
   currentPath (run identityMath [StartPath [(0, (0, 0, 0))], EndPath, StartPath [(0, (1, 1, 0))]]
     (InkCanvas createScene False)) = Some 2 \<and>
   2 \<notin> set (paths (run identityMath [StartPath [(0, (0, 0, 0))], EndPath, StartPath [(0, (1, 1, 0))]]
     (InkCanvas createScene False)))"
proof -
  have cur: "currentPath (run identityMath [StartPath [(0, (0, 0, 0))], EndPath, StartPath [(0, (1, 1, 0))]]
     (InkCanvas createScene False)) = Some 2"
    by (simp add: canvas_defs Let_def)
  show ?thesis
    using C7_single_stroke_in_progress [of drawing identityMath "[(0, (3, 3, 0))]"
        "[StartPath [(0, (0, 0, 0))], EndPath, StartPath [(0, (1, 1, 0))]]" False] cur
    by (simp add: drawing_fields)
qed

subsection \<open>C8: extendPath\<close>

text \<open>
  The three cases of \<open>extendPath\<close>. With no stroke in progress the bare \<open>return;\<close>
  yields \<open>undefined\<close> and nothing changes. With a stroke in progress, a miss returns
  false and changes nothing; a hit overwrites the scratch matrix, hands the local point to
  \<open>addPointToPath\<close> of the stroke in progress and returns true.
\<close>

lemma extendPath_idle: "currentPath s = None \<Longrightarrow> extendPath M ry s = (Return JsUndefined, s)"
  by (simp add: extendPath_def)

lemma extendPath_miss:
  "currentPath s = Some path \<Longrightarrow> misses (scene s) ry \<Longrightarrow>
   extendPath M ry s = (Return (JsBool False), s)"
  by (simp add: extendPath_def misses_def split: option.splits pickingInfo.splits)

lemma extendPath_hit:
  "currentPath s = Some path \<Longrightarrow> pick (scene s) ry = Some (Hit pm pp) \<Longrightarrow>
   transformCoordinates M pp (invert M (getWorldMatrix M (objs (scene s) ! pm))) = (lx, ly, lz) \<Longrightarrow>
   extendPath M ry s =
     (Return (JsBool True),
      s\<lparr>invertedWorldMatrix := invert M (getWorldMatrix M (objs (scene s) ! pm)),
        scene := (scene s)\<lparr>objs := (objs (scene s))[path :=
                   addPointToPath lx ly (objs (scene s) ! path)]\<rparr>\<rparr>)"
  by (simp add: extendPath_def Let_def)

text \<open>
  C8 says that \<open>extendPath\<close> returns false when no stroke is in progress. On a new
  canvas the call changes nothing, as claimed, but what it returns is \<open>undefined\<close>, not
  false: the method is declared to return a \<open>Boolean\<close> and its other two exits return
  \<open>true\<close> and \<open>false\<close>, while the guard still ends in a bare \<open>return;\<close>.
\<close>

theorem C8_extendPath_idle_returns_undefined:
  "currentPath (InkCanvas createScene False) = None \<and>
   extendPath identityMath [(0, (0, 0, 0))] (InkCanvas createScene False) =
     (Return JsUndefined, InkCanvas createScene False) \<and>
   fst (extendPath identityMath [(0, (0, 0, 0))] (InkCanvas createScene False)) \<noteq> Return (JsBool False)"
  by (simp add: extendPath_def InkCanvas_def Let_def allocMesh_def)

subsection \<open>C9: changeColor\<close>

text \<open>
  C9: \<open>changeColor(c)\<close> sets the colour to \<open>c\<close> and, through \<open>usePen\<close>, sets the mode to
  \<open>pen\<close> whatever it was before, so a mode other than \<open>pen\<close> does not survive a change
  of colour; outside the debug configuration the next path material is therefore the
  simple material of colour \<open>c\<close>.
\<close>

theorem C9_changeColor_resets_mode:
  "changeColor c s = usePen (s\<lparr>currentColor := c\<rparr>) \<and>
   changeColor c s = s\<lparr>currentColor := c, currentMode := pen\<rparr> \<and>
   currentColor (changeColor c s) = c \<and>
   currentMode (changeColor c s) = pen \<and>
   currentMode (changeColor c (s\<lparr>currentMode := Suc pen\<rparr>)) = pen \<and>
   kind (createPathMaterial (changeColor c s)) = (if debug s then DebugMaterial else SimpleMaterial c)"
  by (simp add: changeColor_def usePen_def createPathMaterial_def createDebugMaterial_def
      createSimpleMaterial_def)

text \<open>
  C9 at an example: a new canvas whose mode was set to 1, a value other than \<open>pen\<close>.
\<close>

theorem C9_changeColor_resets_mode_witness:
  "currentMode ((InkCanvas createScene False)\<lparr>currentMode := 1\<rparr>) \<noteq> pen \<and>
   currentMode (changeColor (0, 0, 0) ((InkCanvas createScene False)\<lparr>currentMode := 1\<rparr>)) = pen \<and>
   currentColor (changeColor (0, 0, 0) ((InkCanvas createScene False)\<lparr>currentMode := 1\<rparr>)) =
     (0, 0, 0) \<and>
   kind (createPathMaterial
     (changeColor (0, 0, 0) ((InkCanvas createScene False)\<lparr>currentMode := 1\<rparr>))) =
     SimpleMaterial (0, 0, 0)"
  using C9_changeColor_resets_mode [of "(0, 0, 0)" "(InkCanvas createScene False)\<lparr>currentMode := 1\<rparr>"]
  by (simp add: pen_def changeColor_def usePen_def createPathMaterial_def createSimpleMaterial_def
      InkCanvas_def allocMesh_def Let_def)

subsection \<open>C10: strokes are not pickable\<close>

text \<open>
  C10: a stroke mesh that a successful \<open>startPath\<close> has created is not pickable when the
  call returns. In every state the page's canvas reaches, every path mesh is therefore
  not pickable, and a pick that hits reports object 0, the drawing plane, never a stroke.
  The plane stays attached and pickable, so a pointer ray that meets any meshes other than
  the plane (ink) and then the plane at \<open>p\<close> does hit the plane at \<open>p\<close>: with a stroke
  in progress \<open>extendPath\<close> hands the plane's local point of \<open>p\<close> to that stroke and
  returns true, and on an idle canvas with a positive size \<open>startPath\<close> starts a stroke
  whose parent is the plane, seeded at that point and itself not pickable.
\<close>

theorem C10_strokes_not_pickable:
  "(startPath M ry s = (Return (JsBool True), s') \<longrightarrow>
      (\<exists>path. currentPath s' = Some path \<and> path < length (objs (scene s')) \<and>
         pathData (objs (scene s') ! path) \<noteq> None \<and>
         \<not> isPickable (objs (scene s') ! path))) \<and>
   list_all (\<lambda>m. pathData m = None \<or> \<not> isPickable m)
     (objs (scene (run M evs (InkCanvas createScene dbg)))) \<and>
   (\<forall>r p. pick (scene (run M evs (InkCanvas createScene dbg))) ry' = Some (Hit r p) \<longrightarrow>
      r = 0 \<and>
      name (objs (scene (run M evs (InkCanvas createScene dbg))) ! r) = ''Drawing Plane 1'' \<and>
      pathData (objs (scene (run M evs (InkCanvas createScene dbg))) ! r) = None) \<and>
   (let t = run M evs (InkCanvas createScene dbg); through = pre @ (0, p) # rest in
      list_all (\<lambda>(r, q). r \<noteq> 0) pre \<longrightarrow>
        pick (scene t) through = Some (Hit 0 p) \<and>
        (\<forall>path. currentPath t = Some path \<longrightarrow>
           extendPath M through t =
             (Return (JsBool True),
              t\<lparr>invertedWorldMatrix := invert M (getWorldMatrix M (objs (scene t) ! 0)),
                scene := (scene t)\<lparr>objs := (objs (scene t))[path :=
                   addPointToPath (fst (localPoint M t 0 p)) (snd (localPoint M t 0 p))
                     (objs (scene t) ! path)]\<rparr>\<rparr>)) \<and>
        (currentPath t = None \<and> 0 < currentSize t \<longrightarrow>
           fst (startPath M through t) = Return (JsBool True) \<and>
           currentPath (snd (startPath M through t)) = Some (length (objs (scene t))) \<and>
           parent (objs (scene (snd (startPath M through t))) ! length (objs (scene t))) =
             Some 0 \<and>
           map_option points
             (pathData (objs (scene (snd (startPath M through t))) ! length (objs (scene t)))) =
             Some [localPoint M t 0 p] \<and>
           \<not> isPickable (objs (scene (snd (startPath M through t))) ! length (objs (scene t)))))"
proof -
  let ?t = "run M evs (InkCanvas createScene dbg)"
  let ?through = "pre @ (0, p) # rest"
  have inv: "canvasInv ?t"
    by (rule canvasInv_reachable)
  then have sc: "sceneInv (objs (scene ?t))"
    by (simp add: canvasInv_def)
  have created: "\<exists>path. currentPath s' = Some path \<and> path < length (objs (scene s')) \<and>
         pathData (objs (scene s') ! path) \<noteq> None \<and>
         \<not> isPickable (objs (scene s') ! path)"
    if "startPath M ry s = (Return (JsBool True), s')"
    using startPath_success [OF that] by auto
  have picked: "r = 0 \<and> name (objs (scene ?t) ! r) = ''Drawing Plane 1'' \<and>
      pathData (objs (scene ?t) ! r) = None"
    if "pick (scene ?t) ry' = Some (Hit r p)" for r p
    using canvasInv_pick [OF inv that] sceneInv_plane [OF sc] by simp
  have first: "(startPath M ry s = (Return (JsBool True), s') \<longrightarrow>
      (\<exists>path. currentPath s' = Some path \<and> path < length (objs (scene s')) \<and>
         pathData (objs (scene s') ! path) \<noteq> None \<and>
         \<not> isPickable (objs (scene s') ! path))) \<and>
     list_all (\<lambda>m. pathData m = None \<or> \<not> isPickable m) (objs (scene ?t)) \<and>
     (\<forall>r p. pick (scene ?t) ry' = Some (Hit r p) \<longrightarrow>
        r = 0 \<and> name (objs (scene ?t) ! r) = ''Drawing Plane 1'' \<and>
        pathData (objs (scene ?t) ! r) = None)"
    using created picked sceneInv_unpickable [OF sc] by blast
  have beneath: "pick (scene ?t) ?through = Some (Hit 0 p)"
    if "list_all (\<lambda>(r, q). r \<noteq> 0) pre"
    using pick_through [OF inv planeInv_reachable that] .
  have extend: "extendPath M ?through ?t =
             (Return (JsBool True),
              ?t\<lparr>invertedWorldMatrix := invert M (getWorldMatrix M (objs (scene ?t) ! 0)),
                scene := (scene ?t)\<lparr>objs := (objs (scene ?t))[path :=
                   addPointToPath (fst (localPoint M ?t 0 p)) (snd (localPoint M ?t 0 p))
                     (objs (scene ?t) ! path)]\<rparr>\<rparr>)"
    if "list_all (\<lambda>(r, q). r \<noteq> 0) pre" and "currentPath ?t = Some path" for path
    using extendPath_forward [OF that(2) beneath [OF that(1)]] .
  have start: "fst (startPath M ?through ?t) = Return (JsBool True) \<and>
           currentPath (snd (startPath M ?through ?t)) = Some (length (objs (scene ?t))) \<and>
           parent (objs (scene (snd (startPath M ?through ?t))) ! length (objs (scene ?t))) =
             Some 0 \<and>
           map_option points
             (pathData (objs (scene (snd (startPath M ?through ?t))) ! length (objs (scene ?t)))) =
             Some [localPoint M ?t 0 p] \<and>
           \<not> isPickable (objs (scene (snd (startPath M ?through ?t))) ! length (objs (scene ?t)))"
    if "list_all (\<lambda>(r, q). r \<noteq> 0) pre" and "currentPath ?t = None" and "0 < currentSize ?t"
  proof -
    have "0 < currentSize ?t * sizeScaleFactor ?t"
      using that(3) by (simp add: reachable_scale)
    from startPath_hit [OF that(2) beneath [OF that(1)] this, of M] show ?thesis
      by (simp add: setupPath_def newMesh_def)
  qed
  have second: "list_all (\<lambda>(r, q). r \<noteq> 0) pre \<longrightarrow>
        pick (scene ?t) ?through = Some (Hit 0 p) \<and>
        (\<forall>path. currentPath ?t = Some path \<longrightarrow>
           extendPath M ?through ?t =
             (Return (JsBool True),
              ?t\<lparr>invertedWorldMatrix := invert M (getWorldMatrix M (objs (scene ?t) ! 0)),
                scene := (scene ?t)\<lparr>objs := (objs (scene ?t))[path :=
                   addPointToPath (fst (localPoint M ?t 0 p)) (snd (localPoint M ?t 0 p))
                     (objs (scene ?t) ! path)]\<rparr>\<rparr>)) \<and>
        (currentPath ?t = None \<and> 0 < currentSize ?t \<longrightarrow>
           fst (startPath M ?through ?t) = Return (JsBool True) \<and>
           currentPath (snd (startPath M ?through ?t)) = Some (length (objs (scene ?t))) \<and>
           parent (objs (scene (snd (startPath M ?through ?t))) ! length (objs (scene ?t))) =
             Some 0 \<and>
           map_option points
             (pathData (objs (scene (snd (startPath M ?through ?t))) ! length (objs (scene ?t)))) =
             Some [localPoint M ?t 0 p] \<and>
           \<not> isPickable (objs (scene (snd (startPath M ?through ?t))) ! length (objs (scene ?t))))"
    using beneath extend start by blast
  from first second show ?thesis
    unfolding Let_def by (intro conjI) blast+
qed

text \<open>
  C10 at the examples: the first stroke on a new canvas; a ray that meets the committed
  stroke (object 1) before the plane, on the idle canvas; and a ray that meets the stroke
  in progress (object 2) and the committed one before the plane at \<open>(3, 4, 0)\<close>, which
  extends the stroke in progress from \<open>(1, 1)\<close> to \<open>(3, 4)\<close>.
\<close>

theorem C10_strokes_not_pickable_witness:
  "fst (startPath identityMath [(0, (0, 0, 0))] (InkCanvas createScene False)) = Return (JsBool True) \<and>
   currentPath (snd (startPath identityMath [(0, (0, 0, 0))] (InkCanvas createScene False))) = Some 1 \<and>
   \<not> isPickable (objs (scene (snd (startPath identityMath [(0, (0, 0, 0))]
       (InkCanvas createScene False)))) ! 1) \<and>
   list_all (\<lambda>(r, q). r \<noteq> 0) [(1 :: nat, (0 :: real, 0 :: real, - 1 :: real))] \<and>
   pick (scene oneStroke) [(1, (0, 0, - 1)), (0, (3, 4, 0))] = Some (Hit 0 (3, 4, 0)) \<and>
   pathData (objs (scene oneStroke) ! 0) = None \<and>
   currentPath oneStroke = None \<and> 0 < currentSize oneStroke \<and>
   fst (startPath identityMath [(1, (0, 0, - 1)), (0, (3, 4, 0))] oneStroke) =
     Return (JsBool True) \<and>
   currentPath (snd (startPath identityMath [(1, (0, 0, - 1)), (0, (3, 4, 0))] oneStroke)) =
     Some 2 \<and>
   parent (objs (scene (snd (startPath identityMath [(1, (0, 0, - 1)), (0, (3, 4, 0))]
     oneStroke))) ! 2) = Some 0 \<and>
   map_option points (pathData (objs (scene (snd (startPath identityMath
     [(1, (0, 0, - 1)), (0, (3, 4, 0))] oneStroke))) ! 2)) = Some [(3, 4)] \<and>
   list_all (\<lambda>(r, q). r \<noteq> 0)
     [(2 :: nat, (0 :: real, 0 :: real, - 2 :: real)), (1, (0, 0, - 1))] \<and>
   currentPath drawingSecond = Some 2 \<and>
   pick (scene drawingSecond) [(2, (0, 0, - 2)), (1, (0, 0, - 1)), (0, (3, 4, 0))] =
     Some (Hit 0 (3, 4, 0)) \<and>
   fst (extendPath identityMath [(2, (0, 0, - 2)), (1, (0, 0, - 1)), (0, (3, 4, 0))]
     drawingSecond) = Return (JsBool True) \<and>
   map_option points (pathData (objs (scene (snd (extendPath identityMath
     [(2, (0, 0, - 2)), (1, (0, 0, - 1)), (0, (3, 4, 0))] drawingSecond))) ! 2)) =
     Some [(1, 1), (3, 4)]"
proof -
  obtain c s' where sp: "startPath identityMath [(0, (0, 0, 0))] (InkCanvas createScene False) = (c, s')"
    by (cases "startPath identityMath [(0, (0, 0, 0))] (InkCanvas createScene False)")
  have c: "c = Return (JsBool True)" and cur: "currentPath s' = Some 1"
    using sp by (auto simp: canvas_defs Let_def)
  have lp: "localPoint identityMath t 0 (3, 4, 0) = (3, 4)" for t
    by (simp add: localPoint_def identityMath_def)
  have old: "map_option points (pathData (objs (scene drawingSecond) ! 2)) = Some [(1, 1)]"
    and len: "length (objs (scene drawingSecond)) = 3"
    by (simp_all add: drawingSecond_def canvas_defs Let_def)
  note idle = C10_strokes_not_pickable [of identityMath "[(0, (0, 0, 0))]"
      "InkCanvas createScene False" s' "[StartPath [(0, (0, 0, 0))], EndPath]" False
      "[(1, (0, 0, - 1)), (0, (3, 4, 0))]" "[(1, (0, 0, - 1))]" "(3, 4, 0)" "[]",
      unfolded Let_def, folded oneStroke_def]
  note busy = C10_strokes_not_pickable [of identityMath "[(0, (0, 0, 0))]"
      "InkCanvas createScene False" s'
      "[StartPath [(0, (0, 0, 0))], EndPath, StartPath [(0, (1, 1, 0))]]" False
      "[(0, (3, 4, 0))]" "[(2, (0, 0, - 2)), (1, (0, 0, - 1))]" "(3, 4, 0)" "[]",
      unfolded Let_def, folded drawingSecond_def]
  have pre1: "list_all (\<lambda>(r, q). r \<noteq> 0) [(1 :: nat, (0 :: real, 0 :: real, - 1 :: real))]"
    by simp
  have pre2: "list_all (\<lambda>(r, q). r \<noteq> 0)
     [(2 :: nat, (0 :: real, 0 :: real, - 2 :: real)), (1, (0, 0, - 1))]"
    by simp
  from idle have idle': "pick (scene oneStroke) [(1, (0, 0, - 1)), (0, (3, 4, 0))] = Some (Hit 0 (3, 4, 0)) \<and>
    fst (startPath identityMath [(1, (0, 0, - 1)), (0, (3, 4, 0))] oneStroke) =
     Return (JsBool True) \<and>
   currentPath (snd (startPath identityMath [(1, (0, 0, - 1)), (0, (3, 4, 0))] oneStroke)) =
     Some 2 \<and>
   parent (objs (scene (snd (startPath identityMath [(1, (0, 0, - 1)), (0, (3, 4, 0))]
     oneStroke))) ! 2) = Some 0 \<and>
   map_option points (pathData (objs (scene (snd (startPath identityMath
     [(1, (0, 0, - 1)), (0, (3, 4, 0))] oneStroke))) ! 2)) = Some [(3, 4)]"
    using pre1 by (simp add: oneStroke_fields lp)
  from busy have ext: "pick (scene drawingSecond) [(2, (0, 0, - 2)), (1, (0, 0, - 1)), (0, (3, 4, 0))] =
     Some (Hit 0 (3, 4, 0)) \<and>
    extendPath identityMath [(2, (0, 0, - 2)), (1, (0, 0, - 1)), (0, (3, 4, 0))] drawingSecond =
     (Return (JsBool True),
      drawingSecond\<lparr>invertedWorldMatrix := invert identityMath
          (getWorldMatrix identityMath (objs (scene drawingSecond) ! 0)),
        scene := (scene drawingSecond)\<lparr>objs := (objs (scene drawingSecond))[2 :=
           addPointToPath 3 4 (objs (scene drawingSecond) ! 2)]\<rparr>\<rparr>)"
    using pre2 by (simp add: drawingSecond_fields lp)
  have busy': "fst (extendPath identityMath [(2, (0, 0, - 2)), (1, (0, 0, - 1)), (0, (3, 4, 0))]
     drawingSecond) = Return (JsBool True) \<and>
   map_option points (pathData (objs (scene (snd (extendPath identityMath
     [(2, (0, 0, - 2)), (1, (0, 0, - 1)), (0, (3, 4, 0))] drawingSecond))) ! 2)) =
     Some [(1, 1), (3, 4)]"
    using old len
    by (auto simp: ext drawingSecond_def canvas_defs Let_def)
  show ?thesis
    using idle sp c cur pre1 pre2 idle' ext busy'
    by (simp add: oneStroke_fields drawingSecond_fields)
qed


end
